theory Spec2Isabelle
  imports Complex_Main
begin

section \<open>Data model\<close>

text \<open>
  The client keeps two replicated tables (players and food), a map of Three.js meshes
  per table, the set of held keys and a reference to the local player. The hex string
  of an identity stands for the identity itself.
\<close>

subsection \<open>JavaScript numbers\<close>

text \<open>
  A position coordinate or a radius comes from the backend and may be any number: NaN,
  an infinity or a finite value. Finite values are real numbers; rounding and the sign
  of zero are outside the model. The operations are those of the language: NaN is
  absorbing for \<open>+\<close>, \<open>-\<close>, \<open>Math.max\<close> and \<open>Math.min\<close>, opposite infinities
  add up to NaN, every comparison with NaN is false, and \<open>!==\<close> holds whenever one
  side is NaN.
\<close>

datatype number = NaN | NegInfinity | Finite real | Infinity

fun num_neg :: "number \<Rightarrow> number" where
  "num_neg NaN = NaN"
| "num_neg NegInfinity = Infinity"
| "num_neg (Finite a) = Finite (- a)"
| "num_neg Infinity = NegInfinity"

fun num_add :: "number \<Rightarrow> number \<Rightarrow> number" where
  "num_add NaN b = NaN"
| "num_add a NaN = NaN"
| "num_add (Finite a) (Finite b) = Finite (a + b)"
| "num_add Infinity NegInfinity = NaN"
| "num_add NegInfinity Infinity = NaN"
| "num_add Infinity b = Infinity"
| "num_add a Infinity = Infinity"
| "num_add NegInfinity b = NegInfinity"
| "num_add a NegInfinity = NegInfinity"

definition num_sub :: "number \<Rightarrow> number \<Rightarrow> number" where
  "num_sub a b = num_add a (num_neg b)"

fun num_less :: "number \<Rightarrow> number \<Rightarrow> bool" where
  "num_less NaN b = False"
| "num_less a NaN = False"
| "num_less (Finite a) (Finite b) = (a < b)"
| "num_less a NegInfinity = False"
| "num_less NegInfinity b = True"
| "num_less Infinity b = False"
| "num_less a Infinity = True"

definition num_le :: "number \<Rightarrow> number \<Rightarrow> bool" where
  "num_le a b = (a \<noteq> NaN \<and> b \<noteq> NaN \<and> \<not> num_less b a)"

definition Math_max :: "number \<Rightarrow> number \<Rightarrow> number" where
  "Math_max a b = (if a = NaN \<or> b = NaN then NaN else if num_less a b then b else a)"

definition Math_min :: "number \<Rightarrow> number \<Rightarrow> number" where
  "Math_min a b = (if a = NaN \<or> b = NaN then NaN else if num_less b a then b else a)"

definition strictNotEqual :: "number \<Rightarrow> number \<Rightarrow> bool" where
  "strictNotEqual a b = (a = NaN \<or> b = NaN \<or> a \<noteq> b)"

text \<open>
  \<open>Array.prototype.sort\<close> with a comparator. A comparator result that is NaN counts
  as zero, and an element goes behind another only when the comparator says more than
  zero. The sort is stable. With a consistent comparator every engine returns the list
  computed here; with an inconsistent one (a NaN among the keys) the language leaves
  the order to the engine, and the model keeps the order a stable insertion gives,
  which leaves in place a list whose neighbours all compare as equal.
\<close>

fun insertSorted :: "('a \<Rightarrow> 'a \<Rightarrow> number) \<Rightarrow> 'a \<Rightarrow> 'a list \<Rightarrow> 'a list" where
  "insertSorted comparefn x [] = [x]"
| "insertSorted comparefn x (y # ys) =
     (if num_less (Finite 0) (comparefn x y) then y # insertSorted comparefn x ys else x # y # ys)"

definition Array_sort :: "('a \<Rightarrow> 'a \<Rightarrow> number) \<Rightarrow> 'a list \<Rightarrow> 'a list" where
  "Array_sort comparefn xs = foldr (insertSorted comparefn) xs []"

subsection \<open>Rows of the two tables\<close>

record position =
  pos_x :: number
  pos_y :: number

record color =
  col_r :: nat
  col_g :: nat
  col_b :: nat

record player =
  identity :: string
  position :: position
  radius :: number
  color :: color
  score :: nat
  online :: bool

record food =
  food_id :: nat
  food_position :: position
  food_color :: color

subsection \<open>JavaScript \<open>Map\<close>: keys in insertion order\<close>

text \<open>
  A \<open>Map\<close> is a list of entries with pairwise different keys, in insertion order.
  \<open>set\<close> on a key that is present replaces the value where the entry stands, and
  appends a new entry otherwise; \<open>delete\<close> of a missing key does nothing.
\<close>

type_synonym ('k, 'v) js_map = "('k \<times> 'v) list"

primrec Map_get :: "('k, 'v) js_map \<Rightarrow> 'k \<Rightarrow> 'v option" where
  "Map_get [] k = None"
| "Map_get (e # es) k = (if fst e = k then Some (snd e) else Map_get es k)"

definition Map_has :: "('k, 'v) js_map \<Rightarrow> 'k \<Rightarrow> bool" where
  "Map_has m k = (Map_get m k \<noteq> None)"

primrec Map_set :: "'k \<Rightarrow> 'v \<Rightarrow> ('k, 'v) js_map \<Rightarrow> ('k, 'v) js_map" where
  "Map_set k v [] = [(k, v)]"
| "Map_set k v (e # es) = (if fst e = k then (k, v) # es else e # Map_set k v es)"

primrec Map_delete :: "'k \<Rightarrow> ('k, 'v) js_map \<Rightarrow> ('k, 'v) js_map" where
  "Map_delete k [] = []"
| "Map_delete k (e # es) = (if fst e = k then Map_delete k es else e # Map_delete k es)"

section \<open>The snapshot store (App.tsx)\<close>

text \<open>
  \<open>usePlayer\<close> keeps a \<open>Map\<close> from identity hex string to player, \<open>useFood\<close> an
  array of food rows. Each handler is the state updater it passes to React, a function
  from the previous state to the next one.
\<close>

definition usePlayer_onInsert :: "player \<Rightarrow> (string, player) js_map \<Rightarrow> (string, player) js_map" where
  "usePlayer_onInsert p prev = Map_set (identity p) p prev"

definition usePlayer_onUpdate ::
  "player \<Rightarrow> player \<Rightarrow> (string, player) js_map \<Rightarrow> (string, player) js_map" where
  "usePlayer_onUpdate oldPlayer p prev =
     Map_set (identity p) p (Map_delete (identity oldPlayer) prev)"

definition usePlayer_onDelete :: "player \<Rightarrow> (string, player) js_map \<Rightarrow> (string, player) js_map" where
  "usePlayer_onDelete p prev = Map_delete (identity p) prev"

text \<open>\<open>findIndex\<close>: the first index whose element satisfies the test, or \<open>-1\<close>.\<close>

primrec findIndex :: "('a \<Rightarrow> bool) \<Rightarrow> 'a list \<Rightarrow> int" where
  "findIndex P [] = -1"
| "findIndex P (x # xs) =
     (if P x then 0 else (let i = findIndex P xs in if i = -1 then -1 else i + 1))"

definition useFood_onInsert :: "food \<Rightarrow> food list \<Rightarrow> food list" where
  "useFood_onInsert foodItem prev = prev @ [foodItem]"

definition useFood_onUpdate :: "food \<Rightarrow> food \<Rightarrow> food list \<Rightarrow> food list" where
  "useFood_onUpdate oldFood foodItem prev =
     (let index = findIndex (\<lambda>f. food_id f = food_id oldFood) prev
      in if index \<noteq> -1 then prev[nat index := foodItem] else prev)"

definition useFood_onDelete :: "food \<Rightarrow> food list \<Rightarrow> food list" where
  "useFood_onDelete foodItem prev = filter (\<lambda>f. food_id f \<noteq> food_id foodItem) prev"

text \<open>A notification of the backend, and a stream of them applied to a store.\<close>

datatype 'a notification = Insert 'a | Update 'a 'a | Delete 'a

fun usePlayer_notify ::
  "(string, player) js_map \<Rightarrow> player notification \<Rightarrow> (string, player) js_map" where
  "usePlayer_notify prev (Insert p) = usePlayer_onInsert p prev"
| "usePlayer_notify prev (Update oldPlayer p) = usePlayer_onUpdate oldPlayer p prev"
| "usePlayer_notify prev (Delete p) = usePlayer_onDelete p prev"

fun useFood_notify :: "food list \<Rightarrow> food notification \<Rightarrow> food list" where
  "useFood_notify prev (Insert f) = useFood_onInsert f prev"
| "useFood_notify prev (Update oldFood f) = useFood_onUpdate oldFood f prev"
| "useFood_notify prev (Delete f) = useFood_onDelete f prev"

text \<open>The initial states are \<open>new Map()\<close> and \<open>[]\<close>.\<close>

definition usePlayer :: "player notification list \<Rightarrow> (string, player) js_map" where
  "usePlayer ns = foldl usePlayer_notify [] ns"

definition useFood :: "food notification list \<Rightarrow> food list" where
  "useFood ns = foldl useFood_notify [] ns"

section \<open>The game component (Game.tsx)\<close>

definition WORLD_SIZE :: real where "WORLD_SIZE = 1000"
definition CAMERA_SIZE :: real where "CAMERA_SIZE = 400"
definition FOOD_RADIUS :: real where "FOOD_RADIUS = 5"
definition MOVE_SPEED :: real where "MOVE_SPEED = 200"

subsection \<open>Meshes and calls into Three.js\<close>

text \<open>
  Three.js is an external library, so every call the component makes into it that
  allocates, releases or changes something is recorded in a trace of calls. A mesh is
  named by the map entry that owns it. The mesh record holds what the component reads
  back: the radius its circle geometry was built with, the colour of its material (as
  the byte triple, before the division by 255), the inner radius of its child named
  \<open>outline\<close> when it has one, its position, and the two cache fields
  \<open>currentRadius\<close> and \<open>currentColor\<close>, which are undefined on a food mesh.
\<close>

datatype mesh_owner = PlayerMesh string | FoodMesh nat

datatype three_call =
    NewCircleGeometry number nat
  | NewRingGeometry number number nat
  | NewMeshBasicMaterial color
  | OutlineAdd mesh_owner
  | SceneAdd mesh_owner
  | SceneRemove mesh_owner
  | GeometryDispose mesh_owner
  | OutlineGeometryDispose mesh_owner
  | MaterialDispose mesh_owner
  | SetRGB mesh_owner color
  | PositionSet mesh_owner number number number

record mesh =
  geometry :: number
  material :: color
  outline :: "number option"
  mesh_position :: "number \<times> number \<times> number"
  currentRadius :: "number option"
  currentColor :: "color option"

definition white :: color where
  "white = \<lparr>col_r = 255, col_g = 255, col_b = 255\<rparr>"

text \<open>
  The refs of the component. \<open>sceneRef\<close> says whether the scene exists;
  \<open>cameraRef\<close> holds the x and y of the camera position once the camera exists;
  \<open>keysRef\<close> is a \<open>Set\<close>, kept as a list without repetition.
\<close>

record game =
  sceneRef :: bool
  cameraRef :: "(number \<times> number) option"
  playerMeshesRef :: "(string, mesh) js_map"
  foodMeshesRef :: "(nat, mesh) js_map"
  keysRef :: "string list"
  lastUpdateRef :: int
  myPlayerRef :: "player option"

definition Set_add :: "'a \<Rightarrow> 'a list \<Rightarrow> 'a list" where
  "Set_add k s = (if k \<in> set s then s else s @ [k])"

definition Set_delete :: "'a \<Rightarrow> 'a list \<Rightarrow> 'a list" where
  "Set_delete k s = removeAll k s"

text \<open>The refs as \<open>useRef\<close> creates them, and the effect that builds the scene.\<close>

definition initialGame :: "int \<Rightarrow> game" where
  "initialGame now =
     \<lparr>sceneRef = False, cameraRef = None, playerMeshesRef = [], foodMeshesRef = [],
      keysRef = [], lastUpdateRef = now, myPlayerRef = None\<rparr>"

definition initScene :: "game \<Rightarrow> game" where
  "initScene g = g\<lparr>sceneRef := True, cameraRef := Some (Finite 0, Finite 0)\<rparr>"

subsection \<open>Player meshes\<close>

text \<open>
  The first loop of the player effect walks the entries of \<open>playerMeshes\<close> and
  deletes the entry it stands on when the player is gone from \<open>players\<close>.
\<close>

fun removeOldPlayerMeshes ::
  "(string, player) js_map \<Rightarrow> (string \<times> mesh) list \<Rightarrow> (string, mesh) js_map
     \<Rightarrow> (string, mesh) js_map \<times> three_call list" where
  "removeOldPlayerMeshes players [] playerMeshes = (playerMeshes, [])"
| "removeOldPlayerMeshes players ((playerId, m) # entries) playerMeshes =
     (if \<not> Map_has players playerId
      then (let (ms, cs) = removeOldPlayerMeshes players entries (Map_delete playerId playerMeshes)
            in (ms, SceneRemove (PlayerMesh playerId) # cs))
      else removeOldPlayerMeshes players entries playerMeshes)"

text \<open>
  \<open>sortedPlayers\<close>: the online entries, sorted with the comparator
  \<open>a.radius - b.radius\<close>.
\<close>

definition sortedPlayers :: "(string, player) js_map \<Rightarrow> (string \<times> player) list" where
  "sortedPlayers players =
     Array_sort (\<lambda>a b. num_sub (radius (snd a)) (radius (snd b)))
       (filter (\<lambda>e. online (snd e)) players)"

text \<open>
  The body of the second loop, for one entry of \<open>sortedPlayers\<close>. The effects and
  their loops have no names in the source; the names here follow its comments. The
  radius test is \<open>!==\<close> on numbers, which also holds when the cache is undefined.
  The colour test \<open>!prevColor || ...\<close> compares the three bytes, so it is the
  inequality of the cached colour, when there is one, and the player's colour.
\<close>

definition updatePlayerMesh :: "string \<Rightarrow> string \<Rightarrow> player \<Rightarrow> game \<Rightarrow> game \<times> three_call list" where
  "updatePlayerMesh ident playerId p g =
     (if \<not> online p then (g, [])
      else
        (let px = pos_x (position p); py = pos_y (position p) in
         case Map_get (playerMeshesRef g) playerId of
           None \<Rightarrow>
             (let isMe = (playerId = ident);
                  m = \<lparr>geometry = radius p, material = color p,
                       outline = (if isMe then Some (radius p) else None),
                       mesh_position = (px, py, Finite 0),
                       currentRadius = Some (radius p), currentColor = Some (color p)\<rparr>
              in (g\<lparr>playerMeshesRef := Map_set playerId m (playerMeshesRef g),
                    myPlayerRef := (if isMe then Some p else myPlayerRef g)\<rparr>,
                  [NewCircleGeometry (radius p) 32, NewMeshBasicMaterial (color p)]
                  @ (if isMe
                     then [NewRingGeometry (radius p) (num_add (radius p) (Finite 2)) 32,
                           NewMeshBasicMaterial white, OutlineAdd (PlayerMesh playerId)]
                     else [])
                  @ [SceneAdd (PlayerMesh playerId), PositionSet (PlayerMesh playerId) px py (Finite 0)]))
         | Some m \<Rightarrow>
             (let needsRadiusUpdate =
                    (case currentRadius m of None \<Rightarrow> True
                     | Some r \<Rightarrow> strictNotEqual r (radius p));
                  needsColorUpdate = (currentColor m \<noteq> Some (color p));
                  outlineUpdate = (needsRadiusUpdate \<and> playerId = ident \<and> outline m \<noteq> None);
                  m' = m\<lparr>geometry := (if needsRadiusUpdate then radius p else geometry m),
                         material := (if needsColorUpdate then color p else material m),
                         outline := (if outlineUpdate then Some (radius p) else outline m),
                         mesh_position := (px, py, Finite 0),
                         currentRadius := (if needsRadiusUpdate then Some (radius p) else currentRadius m),
                         currentColor := (if needsColorUpdate then Some (color p) else currentColor m)\<rparr>
              in (g\<lparr>playerMeshesRef := Map_set playerId m' (playerMeshesRef g)\<rparr>,
                  (if needsRadiusUpdate
                   then [GeometryDispose (PlayerMesh playerId), NewCircleGeometry (radius p) 32]
                        @ (if outlineUpdate
                           then [OutlineGeometryDispose (PlayerMesh playerId),
                                 NewRingGeometry (radius p) (num_add (radius p) (Finite 2)) 32]
                           else [])
                   else [])
                  @ (if needsColorUpdate then [SetRGB (PlayerMesh playerId) (color p)] else [])
                  @ [PositionSet (PlayerMesh playerId) px py (Finite 0)]))))"

fun updateSortedPlayers ::
  "string \<Rightarrow> (string \<times> player) list \<Rightarrow> game \<Rightarrow> game \<times> three_call list" where
  "updateSortedPlayers ident [] g = (g, [])"
| "updateSortedPlayers ident ((playerId, p) # rest) g =
     (let (g1, cs1) = updatePlayerMesh ident playerId p g;
          (g2, cs2) = updateSortedPlayers ident rest g1
      in (g2, cs1 @ cs2))"

text \<open>The player effect: nothing without a scene, else the two loops in turn.\<close>

definition updatePlayerMeshes ::
  "string \<Rightarrow> (string, player) js_map \<Rightarrow> game \<Rightarrow> game \<times> three_call list" where
  "updatePlayerMeshes ident players g =
     (if \<not> sceneRef g then (g, [])
      else
        (let (ms, cs1) = removeOldPlayerMeshes players (playerMeshesRef g) (playerMeshesRef g);
             (g2, cs2) = updateSortedPlayers ident (sortedPlayers players) (g\<lparr>playerMeshesRef := ms\<rparr>)
         in (g2, cs1 @ cs2)))"

subsection \<open>Food meshes\<close>

fun removeOldFoodMeshes ::
  "nat set \<Rightarrow> (nat \<times> mesh) list \<Rightarrow> (nat, mesh) js_map
     \<Rightarrow> (nat, mesh) js_map \<times> three_call list" where
  "removeOldFoodMeshes currentFoodIds [] foodMeshes = (foodMeshes, [])"
| "removeOldFoodMeshes currentFoodIds ((foodId, m) # entries) foodMeshes =
     (if foodId \<notin> currentFoodIds
      then (let (ms, cs) = removeOldFoodMeshes currentFoodIds entries (Map_delete foodId foodMeshes)
            in (ms, [SceneRemove (FoodMesh foodId), GeometryDispose (FoodMesh foodId),
                     MaterialDispose (FoodMesh foodId)] @ cs))
      else removeOldFoodMeshes currentFoodIds entries foodMeshes)"

definition updateFoodMesh :: "food \<Rightarrow> (nat, mesh) js_map \<Rightarrow> (nat, mesh) js_map \<times> three_call list" where
  "updateFoodMesh foodItem foodMeshes =
     (let fx = pos_x (food_position foodItem); fy = pos_y (food_position foodItem) in
      case Map_get foodMeshes (food_id foodItem) of
        None \<Rightarrow>
          (Map_set (food_id foodItem)
             \<lparr>geometry = Finite FOOD_RADIUS, material = food_color foodItem, outline = None,
              mesh_position = (fx, fy, Finite (- 1 / 2)), currentRadius = None,
              currentColor = None\<rparr>
             foodMeshes,
           [NewCircleGeometry (Finite FOOD_RADIUS) 16, NewMeshBasicMaterial (food_color foodItem),
            SceneAdd (FoodMesh (food_id foodItem)),
            PositionSet (FoodMesh (food_id foodItem)) fx fy (Finite (- 1 / 2))])
      | Some m \<Rightarrow>
          (Map_set (food_id foodItem) (m\<lparr>mesh_position := (fx, fy, Finite (- 1 / 2))\<rparr>) foodMeshes,
           [PositionSet (FoodMesh (food_id foodItem)) fx fy (Finite (- 1 / 2))]))"

fun updateCurrentFood ::
  "food list \<Rightarrow> (nat, mesh) js_map \<Rightarrow> (nat, mesh) js_map \<times> three_call list" where
  "updateCurrentFood [] foodMeshes = (foodMeshes, [])"
| "updateCurrentFood (foodItem # rest) foodMeshes =
     (let (ms1, cs1) = updateFoodMesh foodItem foodMeshes;
          (ms2, cs2) = updateCurrentFood rest ms1
      in (ms2, cs1 @ cs2))"

text \<open>
  The food effect. Its guard also tests \<open>!food\<close>, which no array satisfies, the
  empty one included.
\<close>

definition updateFoodMeshes :: "food list \<Rightarrow> game \<Rightarrow> game \<times> three_call list" where
  "updateFoodMeshes foodList g =
     (if \<not> sceneRef g then (g, [])
      else
        (let currentFoodIds = set (map food_id foodList);
             (ms1, cs1) = removeOldFoodMeshes currentFoodIds (foodMeshesRef g) (foodMeshesRef g);
             (ms2, cs2) = updateCurrentFood foodList ms1
         in (g\<lparr>foodMeshesRef := ms2\<rparr>, cs1 @ cs2)))"

subsection \<open>Keyboard\<close>

text \<open>
  \<open>toLowerCase\<close> on the letters A to Z; a key name outside ASCII never becomes one
  of the four movement keys.
\<close>

definition toLowerCase :: "string \<Rightarrow> string" where
  "toLowerCase s =
     map (\<lambda>c. let n = (of_char c :: nat) in if 65 \<le> n \<and> n \<le> 90 then char_of (n + 32) else c) s"

definition handleKeyDown :: "string \<Rightarrow> game \<Rightarrow> game" where
  "handleKeyDown eventKey g =
     (let key = toLowerCase eventKey
      in if key \<in> set [''w'', ''a'', ''s'', ''d'']
         then g\<lparr>keysRef := Set_add key (keysRef g)\<rparr> else g)"

definition handleKeyUp :: "string \<Rightarrow> game \<Rightarrow> game" where
  "handleKeyUp eventKey g = g\<lparr>keysRef := Set_delete (toLowerCase eventKey) (keysRef g)\<rparr>"

subsection \<open>The frame loop\<close>

text \<open>
  The four conditional additions to \<open>deltaX\<close> and \<open>deltaY\<close>, in the source's order.
  \<open>Date.now()\<close> is an integer number of milliseconds, so the elapsed time and the two
  deltas are finite; they are real numbers here.
\<close>

definition movementDelta :: "string list \<Rightarrow> real \<Rightarrow> real \<times> real" where
  "movementDelta keys deltaTime =
     (let deltaX = 0;
          deltaY = 0;
          deltaY = (if ''w'' \<in> set keys then deltaY + MOVE_SPEED * deltaTime else deltaY);
          deltaY = (if ''s'' \<in> set keys then deltaY - MOVE_SPEED * deltaTime else deltaY);
          deltaX = (if ''a'' \<in> set keys then deltaX - MOVE_SPEED * deltaTime else deltaX);
          deltaX = (if ''d'' \<in> set keys then deltaX + MOVE_SPEED * deltaTime else deltaX)
      in (deltaX, deltaY))"

text \<open>
  The first block of \<open>gameLoop\<close>: the position handed to \<open>conn.reducers.playerMoved\<close>,
  or \<open>None\<close> when the block sends nothing.
\<close>

definition playerMoved ::
  "string \<Rightarrow> (string, player) js_map \<Rightarrow> game \<Rightarrow> real \<Rightarrow> position option" where
  "playerMoved ident players g deltaTime =
     (if myPlayerRef g \<noteq> None \<and> length (keysRef g) > 0
      then
        (let (deltaX, deltaY) = movementDelta (keysRef g) deltaTime
         in if deltaX \<noteq> 0 \<or> deltaY \<noteq> 0
            then (case Map_get players ident of
                    Some currentPlayer \<Rightarrow>
                      Some \<lparr>pos_x = Math_max (Finite (- WORLD_SIZE / 2))
                                      (Math_min (Finite (WORLD_SIZE / 2))
                                         (num_add (pos_x (position currentPlayer)) (Finite deltaX))),
                            pos_y = Math_max (Finite (- WORLD_SIZE / 2))
                                      (Math_min (Finite (WORLD_SIZE / 2))
                                         (num_add (pos_y (position currentPlayer)) (Finite deltaY)))\<rparr>
                  | None \<Rightarrow> None)
            else None)
      else None)"

text \<open>The camera bounds and the clamp of the second block, for one axis.\<close>

definition cameraTarget :: "number \<Rightarrow> number" where
  "cameraTarget v =
     (let worldHalfSize = WORLD_SIZE / 2;
          minCamera = - worldHalfSize + CAMERA_SIZE;
          maxCamera = worldHalfSize - CAMERA_SIZE
      in Math_max (Finite minCamera) (Math_min (Finite maxCamera) v))"

definition followPlayer :: "string \<Rightarrow> (string, player) js_map \<Rightarrow> game \<Rightarrow> game" where
  "followPlayer ident players g =
     (if cameraRef g \<noteq> None \<and> myPlayerRef g \<noteq> None
      then (case Map_get players ident of
              Some currentPlayer \<Rightarrow>
                g\<lparr>cameraRef := Some (cameraTarget (pos_x (position currentPlayer)),
                                     cameraTarget (pos_y (position currentPlayer))),
                  myPlayerRef := Some currentPlayer\<rparr>
            | None \<Rightarrow> g)
      else g)"

text \<open>
  One run of \<open>gameLoop\<close> at wall-clock time \<open>now\<close> (milliseconds): the new refs and
  the position sent, if any. The closing render call changes none of the refs.
\<close>

definition gameLoop ::
  "int \<Rightarrow> string \<Rightarrow> (string, player) js_map \<Rightarrow> game \<Rightarrow> game \<times> position option" where
  "gameLoop now ident players g =
     (let deltaTime = real_of_int (now - lastUpdateRef g) / 1000;
          g1 = g\<lparr>lastUpdateRef := now\<rparr>;
          sent = playerMoved ident players g1 deltaTime;
          g2 = followPlayer ident players g1
      in (g2, sent))"

subsection \<open>The component over time\<close>

text \<open>
  What happens to a mounted component: the scene effect runs, a render brings a new
  \<open>players\<close> map or \<open>food\<close> array and the matching effect runs, a key goes down or
  up, or an animation frame runs \<open>gameLoop\<close> with the \<open>players\<close> of the last render.
  The state is that map together with the refs; a step also yields the Three.js calls
  and the position sent.
\<close>

datatype event =
    Mount
  | PlayersChanged "(string, player) js_map"
  | FoodChanged "food list"
  | KeyDown string
  | KeyUp string
  | Frame int

type_synonym client = "(string, player) js_map \<times> game"

fun step :: "string \<Rightarrow> client \<Rightarrow> event \<Rightarrow> client \<times> three_call list \<times> position option" where
  "step ident (players, g) Mount = ((players, initScene g), [], None)"
| "step ident (players, g) (PlayersChanged ps) =
     (let (g', cs) = updatePlayerMeshes ident ps g in ((ps, g'), cs, None))"
| "step ident (players, g) (FoodChanged fs) =
     (let (g', cs) = updateFoodMeshes fs g in ((players, g'), cs, None))"
| "step ident (players, g) (KeyDown k) = ((players, handleKeyDown k g), [], None)"
| "step ident (players, g) (KeyUp k) = ((players, handleKeyUp k g), [], None)"
| "step ident (players, g) (Frame now) =
     (let (g', sent) = gameLoop now ident players g in ((players, g'), [], sent))"

definition run :: "string \<Rightarrow> client \<Rightarrow> event list \<Rightarrow> client" where
  "run ident c evs = foldl (\<lambda>c ev. fst (step ident c ev)) c evs"

definition initialClient :: "int \<Rightarrow> client" where
  "initialClient now = ([], initialGame now)"

subsection \<open>Reading a trace of calls\<close>

text \<open>
  The calls that allocate a geometry or a material; the owners of the meshes a trace
  adds to the scene, in order; and the owners of the meshes a trace adds or changes
  (outline attached, mesh added, geometry replaced, material recoloured, position
  written), in order, one entry per call.
\<close>

fun isAllocation :: "three_call \<Rightarrow> bool" where
  "isAllocation (NewCircleGeometry r n) = True"
| "isAllocation (NewRingGeometry r1 r2 n) = True"
| "isAllocation (NewMeshBasicMaterial c) = True"
| "isAllocation c = False"

fun addedOwners :: "three_call list \<Rightarrow> mesh_owner list" where
  "addedOwners [] = []"
| "addedOwners (SceneAdd ow # cs) = ow # addedOwners cs"
| "addedOwners (c # cs) = addedOwners cs"

fun touchedOwner :: "three_call \<Rightarrow> mesh_owner option" where
  "touchedOwner (OutlineAdd ow) = Some ow"
| "touchedOwner (SceneAdd ow) = Some ow"
| "touchedOwner (GeometryDispose ow) = Some ow"
| "touchedOwner (OutlineGeometryDispose ow) = Some ow"
| "touchedOwner (SetRGB ow c) = Some ow"
| "touchedOwner (PositionSet ow vx vy vz) = Some ow"
| "touchedOwner c = None"

fun touchedOwners :: "three_call list \<Rightarrow> mesh_owner list" where
  "touchedOwners [] = []"
| "touchedOwners (c # cs) =
     (case touchedOwner c of None \<Rightarrow> touchedOwners cs | Some ow \<Rightarrow> ow # touchedOwners cs)"

section \<open>Sample data\<close>

definition alice :: player where
  "alice = \<lparr>identity = ''a1'', position = \<lparr>pos_x = Finite 450, pos_y = Finite 450\<rparr>,
            radius = Finite 20,
            color = \<lparr>col_r = 200, col_g = 30, col_b = 30\<rparr>, score = 0, online = True\<rparr>"

definition bob :: player where
  "bob = \<lparr>identity = ''b2'', position = \<lparr>pos_x = Finite (- 40), pos_y = Finite 15\<rparr>,
          radius = Finite 12,
          color = \<lparr>col_r = 10, col_g = 90, col_b = 220\<rparr>, score = 3, online = True\<rparr>"

definition food7 :: food where
  "food7 = \<lparr>food_id = 7, food_position = \<lparr>pos_x = Finite 30, pos_y = Finite (- 60)\<rparr>,
            food_color = \<lparr>col_r = 0, col_g = 255, col_b = 0\<rparr>\<rparr>"

definition mountedGame :: game where
  "mountedGame = initScene (initialGame 0)"

text \<open>The local player is known and holds the key \<open>d\<close>.\<close>

definition playingGame :: game where
  "playingGame = mountedGame\<lparr>keysRef := [''d''], myPlayerRef := Some alice\<rparr>"

text \<open>
  A mounted component after one render with \<open>alice\<close> as the local player and one
  with \<open>food7\<close>.
\<close>

definition populatedGame :: game where
  "populatedGame =
     fst (updateFoodMeshes [food7] (fst (updatePlayerMeshes ''a1'' [(''a1'', alice)] mountedGame)))"

text \<open>The meshes the two effects build for \<open>alice\<close> and \<open>food7\<close>.\<close>

definition aliceMesh :: mesh where
  "aliceMesh = \<lparr>geometry = Finite 20, material = color alice, outline = Some (Finite 20),
                 mesh_position = (Finite 450, Finite 450, Finite 0),
                 currentRadius = Some (Finite 20), currentColor = Some (color alice)\<rparr>"

definition food7Mesh :: mesh where
  "food7Mesh = \<lparr>geometry = Finite 5, material = food_color food7, outline = None,
                 mesh_position = (Finite 30, Finite (- 60), Finite (- 1 / 2)),
                 currentRadius = None, currentColor = None\<rparr>"

text \<open>
  Two short histories of a component whose local player is \<open>alice\<close>: she is online
  in the first, and in the second the only render shows her offline.
\<close>

definition aliceOffline :: player where
  "aliceOffline = alice\<lparr>online := False\<rparr>"

definition sessionOnline :: "event list" where
  "sessionOnline = [Mount, PlayersChanged [(''a1'', alice)], KeyDown ''D'']"

definition sessionOffline :: "event list" where
  "sessionOffline = [Mount, PlayersChanged [(''a1'', aliceOffline)], KeyDown ''d'']"

text \<open>
  Rows with a NaN in them: \<open>alice\<close> with a NaN x coordinate, and \<open>carol\<close> with a NaN
  radius, who stands between \<open>dave\<close> (radius 30) and \<open>erin\<close> (radius 10) in a
  \<open>players\<close> map.
\<close>

definition aliceLost :: player where
  "aliceLost = alice\<lparr>position := \<lparr>pos_x = NaN, pos_y = Finite 450\<rparr>\<rparr>"

definition carol :: player where
  "carol = \<lparr>identity = ''c3'', position = \<lparr>pos_x = Finite 0, pos_y = Finite 0\<rparr>,
            radius = NaN, color = \<lparr>col_r = 9, col_g = 9, col_b = 9\<rparr>, score = 0, online = True\<rparr>"

definition dave :: player where
  "dave = \<lparr>identity = ''d4'', position = \<lparr>pos_x = Finite 5, pos_y = Finite 5\<rparr>,
           radius = Finite 30, color = \<lparr>col_r = 1, col_g = 2, col_b = 3\<rparr>, score = 8, online = True\<rparr>"

definition erin :: player where
  "erin = \<lparr>identity = ''e5'', position = \<lparr>pos_x = Finite 7, pos_y = Finite 7\<rparr>,
           radius = Finite 10, color = \<lparr>col_r = 4, col_g = 5, col_b = 6\<rparr>, score = 1, online = True\<rparr>"

definition mixedPlayers :: "(string, player) js_map" where
  "mixedPlayers = [(''d4'', dave), (''c3'', carol), (''e5'', erin)]"

section \<open>Facts about numbers\<close>

lemma num_add_Finite: "num_add v (Finite d) = (case v of Finite a \<Rightarrow> Finite (a + d) | _ \<Rightarrow> v)"
  by (cases v) simp_all

lemma num_add_NaN_iff: "num_add v (Finite d) = NaN \<longleftrightarrow> v = NaN"
  by (cases v) simp_all

lemma num_le_Finite: "num_le (Finite a) (Finite b) \<longleftrightarrow> a \<le> b"
  by (auto simp: num_le_def)

lemma clamp_NaN: "Math_max lo (Math_min hi NaN) = NaN"
  by (simp add: Math_max_def Math_min_def)

lemma clamp_Finite:
  "Math_max (Finite lo) (Math_min (Finite hi) (Finite a)) = Finite (max lo (min hi a))"
  by (auto simp: Math_max_def Math_min_def)

lemma clamp_Infinity:
  "Math_max (Finite lo) (Math_min (Finite hi) Infinity) = Finite (max lo hi)"
  by (auto simp: Math_max_def Math_min_def)

lemma clamp_NegInfinity:
  "Math_max (Finite lo) (Math_min (Finite hi) NegInfinity) = Finite lo"
  by (auto simp: Math_max_def Math_min_def)

lemma clamp_range:
  assumes "lo \<le> hi" and "v \<noteq> NaN"
  shows "num_le (Finite lo) (Math_max (Finite lo) (Math_min (Finite hi) v))
       \<and> num_le (Math_max (Finite lo) (Math_min (Finite hi) v)) (Finite hi)"
  using assms
  by (cases v) (simp_all add: clamp_Finite clamp_Infinity clamp_NegInfinity num_le_Finite)


lemma comparator_sign:
  assumes "a \<noteq> NaN" and "b \<noteq> NaN"
  shows "num_less (Finite 0) (num_sub a b) \<longleftrightarrow> num_less b a"
  using assms by (cases a; cases b) (simp_all add: num_sub_def)

lemma num_le_total: "a \<noteq> NaN \<Longrightarrow> b \<noteq> NaN \<Longrightarrow> num_le a b \<or> num_le b a"
  by (cases a; cases b) (auto simp: num_le_def)

lemma num_le_trans: "num_le a b \<Longrightarrow> num_le b c \<Longrightarrow> num_le a c"
  by (cases a; cases b; cases c) (auto simp: num_le_def)

lemma num_less_le: "num_less a b \<Longrightarrow> num_le a b"
  by (cases a; cases b) (auto simp: num_le_def)

lemma num_less_not_le: "num_less a b \<Longrightarrow> \<not> num_le b a"
  by (simp add: num_le_def)

section \<open>Facts about the sort\<close>

lemma Array_sort_Nil: "Array_sort comparefn [] = []"
  by (simp add: Array_sort_def)

lemma Array_sort_Cons:
  "Array_sort comparefn (x # xs) = insertSorted comparefn x (Array_sort comparefn xs)"
  by (simp add: Array_sort_def)

lemma set_insertSorted: "set (insertSorted comparefn x ys) = insert x (set ys)"
  by (induction ys) auto

lemma set_Array_sort: "set (Array_sort comparefn xs) = set xs"
  by (induction xs) (simp_all add: Array_sort_Nil Array_sort_Cons set_insertSorted)

lemma length_insertSorted: "length (insertSorted comparefn x ys) = Suc (length ys)"
  by (induction ys) auto

lemma length_Array_sort: "length (Array_sort comparefn xs) = length xs"
  by (induction xs) (simp_all add: Array_sort_Nil Array_sort_Cons length_insertSorted)

lemma distinct_map_insertSorted:
  "distinct (map f (insertSorted comparefn x ys)) \<longleftrightarrow> f x \<notin> f ` set ys \<and> distinct (map f ys)"
  by (induction ys) (auto simp: set_insertSorted)

lemma distinct_map_Array_sort:
  "distinct (map f (Array_sort comparefn xs)) \<longleftrightarrow> distinct (map f xs)"
  by (induction xs)
     (simp_all add: Array_sort_Nil Array_sort_Cons distinct_map_insertSorted set_Array_sort)

lemma sorted_insertSorted:
  assumes "sorted_wrt (\<lambda>a b. num_le (key a) (key b)) ys"
    and "key x \<noteq> NaN" and "\<forall>y\<in>set ys. key y \<noteq> NaN"
  shows "sorted_wrt (\<lambda>a b. num_le (key a) (key b))
           (insertSorted (\<lambda>a b. num_sub (key a) (key b)) x ys)"
  using assms
proof (induction ys)
  case Nil
  then show ?case by simp
next
  case (Cons y ys)
  from Cons.prems have y: "key y \<noteq> NaN" and rest: "\<forall>z\<in>set ys. num_le (key y) (key z)"
    and s: "sorted_wrt (\<lambda>a b. num_le (key a) (key b)) ys" and n: "\<forall>z\<in>set ys. key z \<noteq> NaN"
    by simp_all
  show ?case
  proof (cases "num_less (key y) (key x)")
    case True
    then have "num_le (key y) (key x)" by (rule num_less_le)
    with True rest Cons.IH [OF s Cons.prems(2) n] show ?thesis
      by (simp add: comparator_sign [OF Cons.prems(2) y] set_insertSorted)
  next
    case False
    with num_le_total [OF Cons.prems(2) y] have xy: "num_le (key x) (key y)"
      by (auto simp: num_le_def)
    have "\<forall>z\<in>set ys. num_le (key x) (key z)"
      using rest xy by (blast intro: num_le_trans)
    with False xy rest s show ?thesis
      by (simp add: comparator_sign [OF Cons.prems(2) y])
  qed
qed

lemma sorted_Array_sort:
  assumes "\<forall>x\<in>set xs. key x \<noteq> NaN"
  shows "sorted_wrt (\<lambda>a b. num_le (key a) (key b)) (Array_sort (\<lambda>a b. num_sub (key a) (key b)) xs)"
  using assms
proof (induction xs)
  case Nil
  then show ?case by (simp add: Array_sort_Nil)
next
  case (Cons x xs)
  then show ?case
    by (simp add: Array_sort_Cons sorted_insertSorted set_Array_sort)
qed

section \<open>Facts about maps\<close>

lemma Map_delete_filter: "Map_delete k m = filter (\<lambda>e. fst e \<noteq> k) m"
  by (induction m) auto

lemma Map_set_keys:
  "map fst (Map_set k v m) = (if k \<in> set (map fst m) then map fst m else map fst m @ [k])"
  by (induction m) auto

lemma Map_get_None_iff: "Map_get m k = None \<longleftrightarrow> k \<notin> fst ` set m"
  by (induction m) auto

lemma Map_has_iff: "Map_has m k \<longleftrightarrow> k \<in> fst ` set m"
  by (simp add: Map_has_def Map_get_None_iff)

lemma Map_get_set: "Map_get (Map_set k v m) k' = (if k' = k then Some v else Map_get m k')"
  by (induction m) auto

lemma Map_get_delete: "Map_get (Map_delete k m) k' = (if k' = k then None else Map_get m k')"
  by (induction m) auto

lemma Map_delete_absent: "k \<notin> fst ` set m \<Longrightarrow> Map_delete k m = m"
  by (induction m) auto

lemma distinct_Map_set: "distinct (map fst m) \<Longrightarrow> distinct (map fst (Map_set k v m))"
  by (simp add: Map_set_keys)

lemma distinct_Map_delete: "distinct (map fst m) \<Longrightarrow> distinct (map fst (Map_delete k m))"
  by (simp add: Map_delete_filter distinct_map_filter)

section \<open>Properties of the snapshot store\<close>

lemma usePlayer_notify_distinct:
  "distinct (map fst prev) \<Longrightarrow> distinct (map fst (usePlayer_notify prev n))"
  by (cases n)
     (simp_all add: usePlayer_onInsert_def usePlayer_onUpdate_def usePlayer_onDelete_def
        distinct_Map_set distinct_Map_delete)

lemma usePlayer_foldl_distinct:
  "distinct (map fst prev) \<Longrightarrow> distinct (map fst (foldl usePlayer_notify prev ns))"
  by (induction ns arbitrary: prev) (simp_all add: usePlayer_notify_distinct)

lemma findIndex_ge: "findIndex P xs = -1 \<or> 0 \<le> findIndex P xs"
  by (induction xs) (auto simp: Let_def)

lemma findIndex_none: "findIndex P xs = -1 \<longleftrightarrow> (\<forall>x\<in>set xs. \<not> P x)"
proof (induction xs)
  case Nil
  then show ?case by simp
next
  case (Cons x xs)
  have "findIndex P xs = -1 \<or> 0 \<le> findIndex P xs" by (rule findIndex_ge)
  then have "findIndex P xs + 1 \<noteq> -1" by auto
  with Cons show ?case by (auto simp: Let_def)
qed

lemma findIndex_less: "findIndex P xs < int (length xs)"
  by (induction xs) (auto simp: Let_def)

lemma findIndex_first:
  assumes "findIndex P xs \<noteq> -1"
  shows "nat (findIndex P xs) < length xs \<and> P (xs ! nat (findIndex P xs))
       \<and> (\<forall>j < nat (findIndex P xs). \<not> P (xs ! j))"
  using assms
proof (induction xs)
  case Nil
  then show ?case by simp
next
  case (Cons x xs)
  show ?case
  proof (cases "P x")
    case True
    then show ?thesis by simp
  next
    case False
    with Cons.prems have i: "findIndex P xs \<noteq> -1"
      by (auto simp: Let_def split: if_splits)
    with findIndex_ge [of P xs] have "0 \<le> findIndex P xs" by auto
    then have n: "nat (findIndex P xs + 1) = Suc (nat (findIndex P xs))" by simp
    from Cons.IH [OF i] False show ?thesis
      by (auto simp: Let_def i n less_Suc_eq_0_disj)
  qed
qed

text \<open>
  C3, as stated, fails for food: an update for an id the array does not hold leaves the
  array as it is, where an insert would append the row; and two inserts of one id give
  two entries with that id.
\<close>

theorem C3_food_update_counterexample:
  "useFood_onUpdate food7 food7 [] \<noteq> useFood_onInsert food7 []
   \<and> \<not> distinct (map food_id (useFood [Insert food7, Insert food7]))"
  by (simp add: useFood_onUpdate_def useFood_onInsert_def useFood_def)

text \<open>
  C3, amended. Players: whatever the notifications, the map never holds a key twice; an
  update whose old key is not in the map leaves it exactly as the insert of the new row
  would; after an update or an insert the key maps to the new row as a whole. Food: an
  update whose id is not in the array changes nothing; an update whose id is in the
  array replaces the first row with that id by the new row; an insert appends the row.
  The ids of the array stay pairwise different under an insert of an id that is not in
  it, under an update that keeps the id, and under a delete.
\<close>

theorem C3_store_upsert:
  "distinct (map fst (usePlayer ns))
   \<and> (identity oldPlayer \<notin> fst ` set prev \<longrightarrow>
        usePlayer_onUpdate oldPlayer p prev = usePlayer_onInsert p prev)
   \<and> Map_get (usePlayer_onUpdate oldPlayer p prev) (identity p) = Some p
   \<and> Map_get (usePlayer_onInsert p prev) (identity p) = Some p
   \<and> (food_id oldFood \<notin> food_id ` set fs \<longrightarrow> useFood_onUpdate oldFood f fs = fs)
   \<and> (food_id oldFood \<in> food_id ` set fs \<longrightarrow>
        (\<exists>i < length fs. food_id (fs ! i) = food_id oldFood
           \<and> (\<forall>j < i. food_id (fs ! j) \<noteq> food_id oldFood)
           \<and> useFood_onUpdate oldFood f fs = fs[i := f]))
   \<and> useFood_onInsert f fs = fs @ [f]
   \<and> (distinct (map food_id fs) \<and> food_id f \<notin> food_id ` set fs \<longrightarrow>
        distinct (map food_id (useFood_onInsert f fs)))
   \<and> (distinct (map food_id fs) \<and> food_id f = food_id oldFood \<longrightarrow>
        distinct (map food_id (useFood_onUpdate oldFood f fs)))
   \<and> (distinct (map food_id fs) \<longrightarrow> distinct (map food_id (useFood_onDelete f fs)))"
proof -
  have a: "distinct (map fst (usePlayer ns))"
    unfolding usePlayer_def by (rule usePlayer_foldl_distinct) simp
  have b: "identity oldPlayer \<notin> fst ` set prev \<longrightarrow>
        usePlayer_onUpdate oldPlayer p prev = usePlayer_onInsert p prev"
    by (simp add: usePlayer_onUpdate_def usePlayer_onInsert_def Map_delete_absent)
  have c: "Map_get (usePlayer_onUpdate oldPlayer p prev) (identity p) = Some p"
    by (simp add: usePlayer_onUpdate_def Map_get_set)
  have d: "Map_get (usePlayer_onInsert p prev) (identity p) = Some p"
    by (simp add: usePlayer_onInsert_def Map_get_set)
  have e: "food_id oldFood \<notin> food_id ` set fs \<longrightarrow> useFood_onUpdate oldFood f fs = fs"
  proof
    assume "food_id oldFood \<notin> food_id ` set fs"
    then have "findIndex (\<lambda>x. food_id x = food_id oldFood) fs = -1"
      by (subst findIndex_none) (metis imageI)
    then show "useFood_onUpdate oldFood f fs = fs"
      by (simp add: useFood_onUpdate_def)
  qed
  have g: "food_id oldFood \<in> food_id ` set fs \<longrightarrow>
        (\<exists>i < length fs. food_id (fs ! i) = food_id oldFood
           \<and> (\<forall>j < i. food_id (fs ! j) \<noteq> food_id oldFood)
           \<and> useFood_onUpdate oldFood f fs = fs[i := f])"
  proof
    let ?i = "findIndex (\<lambda>x. food_id x = food_id oldFood) fs"
    assume "food_id oldFood \<in> food_id ` set fs"
    then have i: "?i \<noteq> -1" by (subst findIndex_none) (metis imageE)
    from findIndex_first [OF i]
    have "nat ?i < length fs" "food_id (fs ! nat ?i) = food_id oldFood"
      "\<forall>j < nat ?i. food_id (fs ! j) \<noteq> food_id oldFood"
      by simp_all
    moreover from i have "useFood_onUpdate oldFood f fs = fs[nat ?i := f]"
      by (simp add: useFood_onUpdate_def)
    ultimately show "\<exists>i < length fs. food_id (fs ! i) = food_id oldFood
           \<and> (\<forall>j < i. food_id (fs ! j) \<noteq> food_id oldFood)
           \<and> useFood_onUpdate oldFood f fs = fs[i := f]"
      by blast
  qed
  have h: "useFood_onInsert f fs = fs @ [f]"
    by (simp add: useFood_onInsert_def)
  have i: "distinct (map food_id fs) \<and> food_id f \<notin> food_id ` set fs \<longrightarrow>
        distinct (map food_id (useFood_onInsert f fs))"
    by (simp add: useFood_onInsert_def)
  have j: "distinct (map food_id fs) \<and> food_id f = food_id oldFood \<longrightarrow>
        distinct (map food_id (useFood_onUpdate oldFood f fs))"
  proof
    assume p: "distinct (map food_id fs) \<and> food_id f = food_id oldFood"
    show "distinct (map food_id (useFood_onUpdate oldFood f fs))"
    proof (cases "food_id oldFood \<in> food_id ` set fs")
      case False
      with e p show ?thesis by simp
    next
      case True
      with g obtain n where n: "n < length fs" "food_id (fs ! n) = food_id oldFood"
        "useFood_onUpdate oldFood f fs = fs[n := f]"
        by blast
      have "map food_id (fs[n := f]) = (map food_id fs)[n := map food_id fs ! n]"
        using n(1,2) p by (simp add: map_update)
      then have "map food_id (fs[n := f]) = map food_id fs"
        by (simp only: list_update_id)
      with p n(3) show ?thesis by simp
    qed
  qed
  have k: "distinct (map food_id fs) \<longrightarrow> distinct (map food_id (useFood_onDelete f fs))"
    by (simp add: useFood_onDelete_def distinct_map_filter)
  from a b c d e g h i j k show ?thesis by blast
qed

text \<open>C3, amended, on sample streams and stores.\<close>

theorem C3_store_upsert_witness:
  "distinct (map fst (usePlayer [Insert alice, Update bob bob, Delete alice, Update bob alice]))
   \<and> identity bob \<notin> fst ` set [(identity alice, alice)]
   \<and> usePlayer_onUpdate bob bob [(identity alice, alice)] = [(identity alice, alice), (identity bob, bob)]
   \<and> usePlayer_onInsert bob [(identity alice, alice)] = [(identity alice, alice), (identity bob, bob)]
   \<and> food_id food7 \<notin> food_id ` set []
   \<and> useFood_onUpdate food7 food7 [] = []
   \<and> food_id food7 \<in> food_id ` set [food7]
   \<and> useFood_onUpdate food7 (food7\<lparr>food_color := white\<rparr>) [food7] = [food7\<lparr>food_color := white\<rparr>]
   \<and> distinct (map food_id [food7]) \<and> food_id (food7\<lparr>food_id := 8\<rparr>) \<notin> food_id ` set [food7]
   \<and> distinct (map food_id (useFood_onInsert (food7\<lparr>food_id := 8\<rparr>) [food7]))
   \<and> food_id (food7\<lparr>food_color := white\<rparr>) = food_id food7
   \<and> distinct (map food_id (useFood_onUpdate food7 (food7\<lparr>food_color := white\<rparr>) [food7]))
   \<and> distinct (map food_id (useFood_onDelete food7 [food7]))"
proof -
  have h: "identity bob \<notin> fst ` set [(identity alice, alice)]"
    "food_id food7 \<notin> food_id ` set []" "food_id food7 \<in> food_id ` set [food7]"
    "distinct (map food_id [food7])" "food_id (food7\<lparr>food_id := 8\<rparr>) \<notin> food_id ` set [food7]"
    "food_id (food7\<lparr>food_color := white\<rparr>) = food_id food7"
    by (simp_all add: alice_def bob_def food7_def)
  have v: "usePlayer_onInsert bob [(identity alice, alice)] = [(identity alice, alice), (identity bob, bob)]"
    "useFood_onUpdate food7 (food7\<lparr>food_color := white\<rparr>) [food7] = [food7\<lparr>food_color := white\<rparr>]"
    by (simp_all add: usePlayer_onInsert_def useFood_onUpdate_def alice_def bob_def)
  note t1 = C3_store_upsert [of "[Insert alice, Update bob bob, Delete alice, Update bob alice]"
      bob "[(identity alice, alice)]" bob food7 "[]" food7]
  note t2 = C3_store_upsert [of "[]" bob "[]" bob food7 "[food7]" "food7\<lparr>food_color := white\<rparr>"]
  note t3 = C3_store_upsert [of "[]" bob "[]" bob food7 "[food7]" "food7\<lparr>food_id := 8\<rparr>"]
  from t1 h(1) v(1) have p: "distinct (map fst (usePlayer [Insert alice, Update bob bob, Delete alice, Update bob alice]))"
    "usePlayer_onUpdate bob bob [(identity alice, alice)] = [(identity alice, alice), (identity bob, bob)]"
    by simp_all
  from t1 h(2) have q: "useFood_onUpdate food7 food7 [] = []" by blast
  from t2 h(4,6) have r: "distinct (map food_id (useFood_onUpdate food7 (food7\<lparr>food_color := white\<rparr>) [food7]))"
    "distinct (map food_id (useFood_onDelete (food7\<lparr>food_color := white\<rparr>) [food7]))"
    by blast+
  from t3 h(4,5) have s: "distinct (map food_id (useFood_onInsert (food7\<lparr>food_id := 8\<rparr>) [food7]))"
    by blast
  have u: "distinct (map food_id (useFood_onDelete food7 [food7]))"
    using r(2) by (simp add: useFood_onDelete_def)
  from h v p q r(1) s u show ?thesis by blast
qed

section \<open>Properties of the frame loop\<close>

lemma movementDelta_sum:
  "movementDelta keys t =
     ((if ''d'' \<in> set keys then MOVE_SPEED * t else 0) - (if ''a'' \<in> set keys then MOVE_SPEED * t else 0),
      (if ''w'' \<in> set keys then MOVE_SPEED * t else 0) - (if ''s'' \<in> set keys then MOVE_SPEED * t else 0))"
  by (simp add: movementDelta_def Let_def)

lemma movementDelta_no_keys: "keys = [] \<Longrightarrow> movementDelta keys t = (0, 0)"
  by (simp add: movementDelta_sum)

lemma gameLoop_sent:
  "snd (gameLoop now ident players g) =
     playerMoved ident players (g\<lparr>lastUpdateRef := now\<rparr>) (real_of_int (now - lastUpdateRef g) / 1000)"
  by (simp add: gameLoop_def Let_def)

lemma playerMoved_still:
  "movementDelta (keysRef g) t = (0, 0) \<Longrightarrow> playerMoved ident players g t = None"
  by (simp add: playerMoved_def)

lemma playerMoved_moving:
  assumes "movementDelta (keysRef g) t = (dx, dy)" and "dx \<noteq> 0 \<or> dy \<noteq> 0"
    and "myPlayerRef g \<noteq> None" and "Map_get players ident = Some cp"
  shows "playerMoved ident players g t =
           Some \<lparr>pos_x = Math_max (Finite (- WORLD_SIZE / 2))
                           (Math_min (Finite (WORLD_SIZE / 2)) (num_add (pos_x (position cp)) (Finite dx))),
                 pos_y = Math_max (Finite (- WORLD_SIZE / 2))
                           (Math_min (Finite (WORLD_SIZE / 2)) (num_add (pos_y (position cp)) (Finite dy)))\<rparr>"
proof -
  have "keysRef g \<noteq> []"
    using assms(1,2) movementDelta_no_keys [of "keysRef g" t] by auto
  with assms show ?thesis by (simp add: playerMoved_def)
qed

lemma playerMoved_Some_cases:
  assumes "playerMoved ident players g t = Some np" and "movementDelta (keysRef g) t = (dx, dy)"
  shows "\<exists>cp. Map_get players ident = Some cp
           \<and> pos_x np = Math_max (Finite (- WORLD_SIZE / 2))
                           (Math_min (Finite (WORLD_SIZE / 2)) (num_add (pos_x (position cp)) (Finite dx)))
           \<and> pos_y np = Math_max (Finite (- WORLD_SIZE / 2))
                           (Math_min (Finite (WORLD_SIZE / 2)) (num_add (pos_y (position cp)) (Finite dy)))"
  using assms by (auto simp: playerMoved_def split: if_splits option.splits)

lemma world_clamp_range:
  assumes "v \<noteq> NaN"
  shows "num_le (Finite (- (WORLD_SIZE / 2)))
           (Math_max (Finite (- WORLD_SIZE / 2)) (Math_min (Finite (WORLD_SIZE / 2)) (num_add v (Finite d))))
       \<and> num_le (Math_max (Finite (- WORLD_SIZE / 2)) (Math_min (Finite (WORLD_SIZE / 2)) (num_add v (Finite d))))
           (Finite (WORLD_SIZE / 2))"
proof -
  have "num_add v (Finite d) \<noteq> NaN" using assms by (simp add: num_add_NaN_iff)
  moreover have "- WORLD_SIZE / 2 \<le> WORLD_SIZE / 2" by (simp add: WORLD_SIZE_def)
  ultimately show ?thesis
    using clamp_range [of "- WORLD_SIZE / 2" "WORLD_SIZE / 2" "num_add v (Finite d)"] by simp
qed

lemma world_clamp_NaN:
  "Math_max (Finite (- WORLD_SIZE / 2)) (Math_min (Finite (WORLD_SIZE / 2)) (num_add NaN (Finite d))) = NaN"
  by (simp add: clamp_NaN)

text \<open>
  C4, as stated, fails where the stored position holds a NaN: \<open>alice\<close> with a NaN x
  coordinate holds \<open>d\<close>, and the position sent has NaN as its x, which is not within
  the world bounds.
\<close>

theorem C4_nan_position_counterexample:
  "snd (gameLoop 100 ''a1'' [(''a1'', aliceLost)] playingGame) = Some \<lparr>pos_x = NaN, pos_y = Finite 450\<rparr>
   \<and> \<not> num_le (Finite (- (WORLD_SIZE / 2))) NaN \<and> \<not> num_le NaN (Finite (WORLD_SIZE / 2))"
  by (simp add: gameLoop_def playerMoved_def movementDelta_def followPlayer_def playingGame_def
      mountedGame_def initScene_def initialGame_def aliceLost_def alice_def MOVE_SPEED_def WORLD_SIZE_def
      Let_def Math_max_def Math_min_def num_le_def)

text \<open>
  C4, amended. In a run of \<open>gameLoop\<close> with elapsed time \<open>t\<close>, the delta is the signed sum
  of the contributions of the held keys, each \<open>MOVE_SPEED * t\<close>. When both deltas are
  zero nothing is sent. Otherwise, the local player being known and in \<open>players\<close>,
  the position sent is, on each axis, \<open>Math.max(-WORLD_SIZE/2, Math.min(WORLD_SIZE/2, c + delta))\<close>
  for the last known coordinate \<open>c\<close>. Of every position sent, a coordinate lies in
  \<open>[-WORLD_SIZE/2, WORLD_SIZE/2]\<close> when the last known coordinate is not NaN, and is
  NaN when that coordinate is NaN.
\<close>

theorem C4_movement_postcondition:
  assumes "t = real_of_int (now - lastUpdateRef g) / 1000"
    and "movementDelta (keysRef g) t = (dx, dy)"
  shows "dx = (if ''d'' \<in> set (keysRef g) then MOVE_SPEED * t else 0)
              - (if ''a'' \<in> set (keysRef g) then MOVE_SPEED * t else 0)
       \<and> dy = (if ''w'' \<in> set (keysRef g) then MOVE_SPEED * t else 0)
              - (if ''s'' \<in> set (keysRef g) then MOVE_SPEED * t else 0)
       \<and> (dx = 0 \<and> dy = 0 \<longrightarrow> snd (gameLoop now ident players g) = None)
       \<and> ((dx \<noteq> 0 \<or> dy \<noteq> 0) \<and> myPlayerRef g \<noteq> None \<and> Map_get players ident = Some cp \<longrightarrow>
            snd (gameLoop now ident players g) =
              Some \<lparr>pos_x = Math_max (Finite (- WORLD_SIZE / 2))
                              (Math_min (Finite (WORLD_SIZE / 2)) (num_add (pos_x (position cp)) (Finite dx))),
                    pos_y = Math_max (Finite (- WORLD_SIZE / 2))
                              (Math_min (Finite (WORLD_SIZE / 2)) (num_add (pos_y (position cp)) (Finite dy)))\<rparr>)
       \<and> (\<forall>np. snd (gameLoop now ident players g) = Some np \<longrightarrow>
            (\<exists>lp. Map_get players ident = Some lp
               \<and> (pos_x (position lp) \<noteq> NaN \<longrightarrow>
                    num_le (Finite (- (WORLD_SIZE / 2))) (pos_x np) \<and> num_le (pos_x np) (Finite (WORLD_SIZE / 2)))
               \<and> (pos_y (position lp) \<noteq> NaN \<longrightarrow>
                    num_le (Finite (- (WORLD_SIZE / 2))) (pos_y np) \<and> num_le (pos_y np) (Finite (WORLD_SIZE / 2)))
               \<and> (pos_x (position lp) = NaN \<longrightarrow> pos_x np = NaN)
               \<and> (pos_y (position lp) = NaN \<longrightarrow> pos_y np = NaN)))"
proof -
  let ?g = "g\<lparr>lastUpdateRef := now\<rparr>"
  have sent: "snd (gameLoop now ident players g) = playerMoved ident players ?g t"
    by (simp add: gameLoop_sent assms(1))
  have d: "movementDelta (keysRef ?g) t = (dx, dy)" using assms(2) by simp
  have a: "dx = (if ''d'' \<in> set (keysRef g) then MOVE_SPEED * t else 0)
              - (if ''a'' \<in> set (keysRef g) then MOVE_SPEED * t else 0)"
    and b: "dy = (if ''w'' \<in> set (keysRef g) then MOVE_SPEED * t else 0)
              - (if ''s'' \<in> set (keysRef g) then MOVE_SPEED * t else 0)"
    using assms(2) by (simp_all add: movementDelta_sum)
  have c: "dx = 0 \<and> dy = 0 \<longrightarrow> snd (gameLoop now ident players g) = None"
    using d by (simp add: sent playerMoved_still)
  have e: "(dx \<noteq> 0 \<or> dy \<noteq> 0) \<and> myPlayerRef g \<noteq> None \<and> Map_get players ident = Some cp \<longrightarrow>
            snd (gameLoop now ident players g) =
              Some \<lparr>pos_x = Math_max (Finite (- WORLD_SIZE / 2))
                              (Math_min (Finite (WORLD_SIZE / 2)) (num_add (pos_x (position cp)) (Finite dx))),
                    pos_y = Math_max (Finite (- WORLD_SIZE / 2))
                              (Math_min (Finite (WORLD_SIZE / 2)) (num_add (pos_y (position cp)) (Finite dy)))\<rparr>"
    using playerMoved_moving [where ident = ident and players = players and cp = cp, OF d]
    by (simp add: sent)
  have f: "\<exists>lp. Map_get players ident = Some lp
               \<and> (pos_x (position lp) \<noteq> NaN \<longrightarrow>
                    num_le (Finite (- (WORLD_SIZE / 2))) (pos_x np) \<and> num_le (pos_x np) (Finite (WORLD_SIZE / 2)))
               \<and> (pos_y (position lp) \<noteq> NaN \<longrightarrow>
                    num_le (Finite (- (WORLD_SIZE / 2))) (pos_y np) \<and> num_le (pos_y np) (Finite (WORLD_SIZE / 2)))
               \<and> (pos_x (position lp) = NaN \<longrightarrow> pos_x np = NaN)
               \<and> (pos_y (position lp) = NaN \<longrightarrow> pos_y np = NaN)"
    if "snd (gameLoop now ident players g) = Some np" for np
  proof -
    from that have "playerMoved ident players ?g t = Some np" by (simp only: sent)
    from playerMoved_Some_cases [OF this d] obtain lp where lp: "Map_get players ident = Some lp"
      "pos_x np = Math_max (Finite (- WORLD_SIZE / 2))
                           (Math_min (Finite (WORLD_SIZE / 2)) (num_add (pos_x (position lp)) (Finite dx)))"
      "pos_y np = Math_max (Finite (- WORLD_SIZE / 2))
                           (Math_min (Finite (WORLD_SIZE / 2)) (num_add (pos_y (position lp)) (Finite dy)))"
      by blast
    have x: "pos_x (position lp) \<noteq> NaN \<longrightarrow>
        num_le (Finite (- (WORLD_SIZE / 2))) (pos_x np) \<and> num_le (pos_x np) (Finite (WORLD_SIZE / 2))"
      unfolding lp(2) using world_clamp_range [of "pos_x (position lp)" dx] by blast
    have y: "pos_y (position lp) \<noteq> NaN \<longrightarrow>
        num_le (Finite (- (WORLD_SIZE / 2))) (pos_y np) \<and> num_le (pos_y np) (Finite (WORLD_SIZE / 2))"
      unfolding lp(3) using world_clamp_range [of "pos_y (position lp)" dy] by blast
    have xn: "pos_x (position lp) = NaN \<longrightarrow> pos_x np = NaN"
      unfolding lp(2) using world_clamp_NaN [of dx] by simp
    have yn: "pos_y (position lp) = NaN \<longrightarrow> pos_y np = NaN"
      unfolding lp(3) using world_clamp_NaN [of dy] by simp
    from lp(1) x y xn yn show ?thesis by blast
  qed
  from a b c e f show ?thesis by blast
qed

lemma movementDelta_d: "movementDelta [''d''] (1 / 10) = (20, 0)"
  by (simp add: movementDelta_def MOVE_SPEED_def)

lemma playingGame_refs:
  "keysRef playingGame = [''d'']" "lastUpdateRef playingGame = 0"
  "myPlayerRef playingGame = Some alice" "cameraRef playingGame = Some (Finite 0, Finite 0)"
  by (simp_all add: playingGame_def mountedGame_def initScene_def initialGame_def)

text \<open>
  C4, amended, on the scenario of the specification: the player at (450, 450) holds
  \<open>d\<close> for a tenth of a second and (470, 450) is sent, within the bounds; with no key
  held nothing is sent.
\<close>

theorem C4_movement_postcondition_witness:
  "(1 / 10 :: real) = real_of_int (100 - lastUpdateRef playingGame) / 1000
   \<and> movementDelta (keysRef playingGame) (1 / 10) = (20, 0)
   \<and> myPlayerRef playingGame \<noteq> None
   \<and> Map_get [(''a1'', alice)] ''a1'' = Some alice
   \<and> pos_x (position alice) \<noteq> NaN \<and> pos_y (position alice) \<noteq> NaN
   \<and> snd (gameLoop 100 ''a1'' [(''a1'', alice)] playingGame) = Some \<lparr>pos_x = Finite 470, pos_y = Finite 450\<rparr>
   \<and> num_le (Finite (- (WORLD_SIZE / 2))) (Finite 470) \<and> num_le (Finite 470) (Finite (WORLD_SIZE / 2))
   \<and> movementDelta (keysRef mountedGame) (1 / 10) = (0, 0)
   \<and> snd (gameLoop 100 ''a1'' [(''a1'', alice)] mountedGame) = None"
proof -
  have m: "keysRef mountedGame = []" "lastUpdateRef mountedGame = 0"
    by (simp_all add: mountedGame_def initScene_def initialGame_def)
  have t: "(1 / 10 :: real) = real_of_int (100 - lastUpdateRef playingGame) / 1000"
    "(1 / 10 :: real) = real_of_int (100 - lastUpdateRef mountedGame) / 1000"
    by (simp_all add: playingGame_refs m)
  have d: "movementDelta (keysRef playingGame) (1 / 10) = (20, 0)"
    by (simp add: playingGame_refs movementDelta_d)
  have d0: "movementDelta (keysRef mountedGame) (1 / 10) = (0, 0)"
    by (simp add: m movementDelta_def)
  have h: "myPlayerRef playingGame \<noteq> None" "Map_get [(''a1'', alice)] ''a1'' = Some alice"
    "pos_x (position alice) \<noteq> NaN" "pos_y (position alice) \<noteq> NaN"
    by (simp_all add: playingGame_refs alice_def)
  note on = C4_movement_postcondition [OF t(1) d, of "''a1''" "[(''a1'', alice)]" alice]
  note off = C4_movement_postcondition [OF t(2) d0, of "''a1''" "[(''a1'', alice)]" alice]
  from on h have s: "snd (gameLoop 100 ''a1'' [(''a1'', alice)] playingGame) =
      Some \<lparr>pos_x = Finite 470, pos_y = Finite 450\<rparr>"
    by (simp add: alice_def WORLD_SIZE_def clamp_Finite)
  from on s h have b: "num_le (Finite (- (WORLD_SIZE / 2))) (Finite 470) \<and> num_le (Finite 470) (Finite (WORLD_SIZE / 2))"
    by auto
  from off have n: "snd (gameLoop 100 ''a1'' [(''a1'', alice)] mountedGame) = None"
    by blast
  from t(1) d h s b d0 n show ?thesis by blast
qed

text \<open>
  C6. With both \<open>a\<close> and \<open>d\<close> held the x delta is zero, and with both \<open>w\<close> and
  \<open>s\<close> held the y delta is zero, for every elapsed time.
\<close>

theorem C6_cancellation:
  "(''a'' \<in> set keys \<and> ''d'' \<in> set keys \<longrightarrow> fst (movementDelta keys t) = 0)
   \<and> (''w'' \<in> set keys \<and> ''s'' \<in> set keys \<longrightarrow> snd (movementDelta keys t) = 0)"
  by (simp add: movementDelta_sum)

text \<open>
  C6 with all four keys held for sixteen milliseconds.
\<close>

theorem C6_cancellation_witness:
  "''a'' \<in> set [''a'', ''d'', ''w'', ''s''] \<and> ''d'' \<in> set [''a'', ''d'', ''w'', ''s'']
   \<and> ''w'' \<in> set [''a'', ''d'', ''w'', ''s''] \<and> ''s'' \<in> set [''a'', ''d'', ''w'', ''s'']
   \<and> movementDelta [''a'', ''d'', ''w'', ''s''] (16 / 1000) = (0, 0)"
  using C6_cancellation [of "[''a'', ''d'', ''w'', ''s'']" "16 / 1000"]
  by (simp add: prod_eq_iff)





section \<open>The garbage passes\<close>

lemma removeOldPlayerMeshes_fst:
  "fst (removeOldPlayerMeshes players es ms) =
     filter (\<lambda>e. fst e \<in> fst ` set es \<longrightarrow> Map_has players (fst e)) ms"
proof (induction es arbitrary: ms)
  case Nil
  then show ?case by simp
next
  case (Cons a es)
  obtain k m where a: "a = (k, m)" by (cases a)
  show ?case
  proof (cases "Map_has players k")
    case True
    then show ?thesis
      by (simp add: a Cons.IH)
  next
    case False
    then show ?thesis
      by (simp add: a Cons.IH split_beta Map_delete_filter)
  qed
qed

lemma removeOldPlayerMeshes_snd:
  "snd (removeOldPlayerMeshes players es ms) =
     map (\<lambda>e. SceneRemove (PlayerMesh (fst e))) (filter (\<lambda>e. \<not> Map_has players (fst e)) es)"
  by (induction es arbitrary: ms) (auto simp: split_beta)

lemma removeOldFoodMeshes_fst:
  "fst (removeOldFoodMeshes ids es ms) = filter (\<lambda>e. fst e \<in> fst ` set es \<longrightarrow> fst e \<in> ids) ms"
proof (induction es arbitrary: ms)
  case Nil
  then show ?case by simp
next
  case (Cons a es)
  obtain k m where a: "a = (k, m)" by (cases a)
  show ?case
  proof (cases "k \<in> ids")
    case True
    then show ?thesis
      by (simp add: a Cons.IH)
  next
    case False
    then show ?thesis
      by (simp add: a Cons.IH split_beta Map_delete_filter)
  qed
qed

lemma removeOldFoodMeshes_snd:
  "snd (removeOldFoodMeshes ids es ms) =
     concat (map (\<lambda>e. [SceneRemove (FoodMesh (fst e)), GeometryDispose (FoodMesh (fst e)),
                         MaterialDispose (FoodMesh (fst e))])
               (filter (\<lambda>e. fst e \<notin> ids) es))"
  by (induction es arbitrary: ms) (auto simp: split_beta)

lemma removeOldPlayerMeshes_all:
  "removeOldPlayerMeshes players ms ms =
     (filter (\<lambda>e. Map_has players (fst e)) ms,
      map (\<lambda>e. SceneRemove (PlayerMesh (fst e))) (filter (\<lambda>e. \<not> Map_has players (fst e)) ms))"
proof -
  have "fst (removeOldPlayerMeshes players ms ms) = filter (\<lambda>e. Map_has players (fst e)) ms"
    unfolding removeOldPlayerMeshes_fst by (rule filter_cong) auto
  then show ?thesis
    by (simp add: prod_eq_iff removeOldPlayerMeshes_snd)
qed

lemma removeOldFoodMeshes_all:
  "removeOldFoodMeshes ids ms ms =
     (filter (\<lambda>e. fst e \<in> ids) ms,
      concat (map (\<lambda>e. [SceneRemove (FoodMesh (fst e)), GeometryDispose (FoodMesh (fst e)),
                         MaterialDispose (FoodMesh (fst e))])
               (filter (\<lambda>e. fst e \<notin> ids) ms)))"
proof -
  have "fst (removeOldFoodMeshes ids ms ms) = filter (\<lambda>e. fst e \<in> ids) ms"
    unfolding removeOldFoodMeshes_fst by (rule filter_cong) auto
  then show ?thesis
    by (simp add: prod_eq_iff removeOldFoodMeshes_snd)
qed

section \<open>The two effects, unfolded\<close>

lemma updatePlayerMeshes_unfold:
  assumes "sceneRef g"
  shows "updatePlayerMeshes ident players g =
    (fst (updateSortedPlayers ident (sortedPlayers players)
            (g\<lparr>playerMeshesRef := filter (\<lambda>e. Map_has players (fst e)) (playerMeshesRef g)\<rparr>)),
     map (\<lambda>e. SceneRemove (PlayerMesh (fst e))) (filter (\<lambda>e. \<not> Map_has players (fst e)) (playerMeshesRef g))
     @ snd (updateSortedPlayers ident (sortedPlayers players)
            (g\<lparr>playerMeshesRef := filter (\<lambda>e. Map_has players (fst e)) (playerMeshesRef g)\<rparr>)))"
  using assms by (simp add: updatePlayerMeshes_def removeOldPlayerMeshes_all split_beta)

lemma updateFoodMeshes_unfold:
  assumes "sceneRef g"
  shows "updateFoodMeshes fs g =
    (g\<lparr>foodMeshesRef :=
         fst (updateCurrentFood fs (filter (\<lambda>e. fst e \<in> food_id ` set fs) (foodMeshesRef g)))\<rparr>,
     concat (map (\<lambda>e. [SceneRemove (FoodMesh (fst e)), GeometryDispose (FoodMesh (fst e)),
                         MaterialDispose (FoodMesh (fst e))])
               (filter (\<lambda>e. fst e \<notin> food_id ` set fs) (foodMeshesRef g)))
     @ snd (updateCurrentFood fs (filter (\<lambda>e. fst e \<in> food_id ` set fs) (foodMeshesRef g))))"
  using assms by (simp add: updateFoodMeshes_def removeOldFoodMeshes_all split_beta Let_def)

lemma sortedPlayers_empty: "sortedPlayers [] = []"
  by (simp add: sortedPlayers_def Array_sort_Nil)

lemma sceneRef_updatePlayerMesh: "sceneRef (fst (updatePlayerMesh ident k p g)) = sceneRef g"
  by (simp add: updatePlayerMesh_def Let_def split: option.splits)

lemma updateSortedPlayers_Cons:
  "updateSortedPlayers ident ((k, p) # rest) g =
     (fst (updateSortedPlayers ident rest (fst (updatePlayerMesh ident k p g))),
      snd (updatePlayerMesh ident k p g)
      @ snd (updateSortedPlayers ident rest (fst (updatePlayerMesh ident k p g))))"
  by (simp add: split_beta)

lemma updateCurrentFood_Cons:
  "updateCurrentFood (f # rest) ms =
     (fst (updateCurrentFood rest (fst (updateFoodMesh f ms))),
      snd (updateFoodMesh f ms) @ snd (updateCurrentFood rest (fst (updateFoodMesh f ms))))"
  by (simp add: split_beta)

declare updateSortedPlayers.simps(2) [simp del]
declare updateCurrentFood.simps(2) [simp del]

lemma sceneRef_updateSortedPlayers: "sceneRef (fst (updateSortedPlayers ident es g)) = sceneRef g"
proof (induction es arbitrary: g)
  case Nil
  then show ?case by simp
next
  case (Cons a es)
  obtain k p where a: "a = (k, p)" by (cases a)
  show ?case by (simp add: a updateSortedPlayers_Cons Cons.IH sceneRef_updatePlayerMesh)
qed

lemma sceneRef_updatePlayerMeshes: "sceneRef (fst (updatePlayerMeshes ident players g)) = sceneRef g"
  by (simp add: updatePlayerMeshes_def split_beta sceneRef_updateSortedPlayers)

lemma sceneRef_updateFoodMeshes: "sceneRef (fst (updateFoodMeshes fs g)) = sceneRef g"
  by (simp add: updateFoodMeshes_def split_beta Let_def)

text \<open>
  C8. With a scene, the player effect run on an empty \<open>players\<close> map removes every
  player mesh from the scene and leaves \<open>playerMeshes\<close> empty, and the food effect
  run on an empty array removes and disposes every food mesh and leaves \<open>foodMeshes\<close>
  empty: the first loop is not skipped. Run once more on the same empty snapshot, either
  effect makes no call and changes nothing.
\<close>

theorem C8_empty_snapshot:
  assumes "sceneRef g"
  shows "snd (updatePlayerMeshes ident [] g) = map (\<lambda>e. SceneRemove (PlayerMesh (fst e))) (playerMeshesRef g)
    \<and> playerMeshesRef (fst (updatePlayerMeshes ident [] g)) = []
    \<and> updatePlayerMeshes ident [] (fst (updatePlayerMeshes ident [] g)) = (fst (updatePlayerMeshes ident [] g), [])
    \<and> snd (updateFoodMeshes [] g) =
        concat (map (\<lambda>e. [SceneRemove (FoodMesh (fst e)), GeometryDispose (FoodMesh (fst e)),
                            MaterialDispose (FoodMesh (fst e))]) (foodMeshesRef g))
    \<and> foodMeshesRef (fst (updateFoodMeshes [] g)) = []
    \<and> updateFoodMeshes [] (fst (updateFoodMeshes [] g)) = (fst (updateFoodMeshes [] g), [])"
proof -
  have p: "updatePlayerMeshes ident [] h =
             (h\<lparr>playerMeshesRef := []\<rparr>, map (\<lambda>e. SceneRemove (PlayerMesh (fst e))) (playerMeshesRef h))"
    if "sceneRef h" for h
    using that by (simp add: updatePlayerMeshes_unfold sortedPlayers_empty Map_has_def)
  have f: "updateFoodMeshes [] h =
             (h\<lparr>foodMeshesRef := []\<rparr>,
              concat (map (\<lambda>e. [SceneRemove (FoodMesh (fst e)), GeometryDispose (FoodMesh (fst e)),
                            MaterialDispose (FoodMesh (fst e))]) (foodMeshesRef h)))"
    if "sceneRef h" for h
    using that by (simp add: updateFoodMeshes_unfold)
  have p2: "updatePlayerMeshes ident [] (g\<lparr>playerMeshesRef := []\<rparr>) = (g\<lparr>playerMeshesRef := []\<rparr>, [])"
    using assms by (simp add: p)
  have f2: "updateFoodMeshes [] (g\<lparr>foodMeshesRef := []\<rparr>) = (g\<lparr>foodMeshesRef := []\<rparr>, [])"
    using assms by (simp add: f)
  show ?thesis
    using assms by (simp add: p f p2 f2)
qed

lemma mountedGame_eq:
  "mountedGame = \<lparr>sceneRef = True, cameraRef = Some (Finite 0, Finite 0), playerMeshesRef = [], foodMeshesRef = [],
      keysRef = [], lastUpdateRef = 0, myPlayerRef = None\<rparr>"
  by (simp add: mountedGame_def initScene_def initialGame_def)

lemma sortedPlayers_single: "sortedPlayers [e] = (if online (snd e) then [e] else [])"
  by (simp add: sortedPlayers_def Array_sort_Nil Array_sort_Cons)

lemma alice_first_render:
  "updatePlayerMeshes ''a1'' [(''a1'', alice)] mountedGame =
     (mountedGame\<lparr>playerMeshesRef := [(''a1'', aliceMesh)], myPlayerRef := Some alice\<rparr>,
      [NewCircleGeometry (Finite 20) 32, NewMeshBasicMaterial (color alice),
       NewRingGeometry (Finite 20) (Finite 22) 32, NewMeshBasicMaterial white,
       OutlineAdd (PlayerMesh ''a1''), SceneAdd (PlayerMesh ''a1''),
       PositionSet (PlayerMesh ''a1'') (Finite 450) (Finite 450) (Finite 0)])"
  by (simp add: updatePlayerMeshes_def mountedGame_eq sortedPlayers_single updateSortedPlayers_Cons
      updatePlayerMesh_def aliceMesh_def alice_def Let_def)

lemma populatedGame_eq:
  "populatedGame = mountedGame\<lparr>playerMeshesRef := [(''a1'', aliceMesh)], myPlayerRef := Some alice,
      foodMeshesRef := [(7, food7Mesh)]\<rparr>"
  unfolding populatedGame_def alice_first_render
  by (simp add: updateFoodMeshes_def updateCurrentFood_Cons
      updateFoodMesh_def mountedGame_eq food7Mesh_def food7_def FOOD_RADIUS_def Let_def)

text \<open>
  C8 on a component that owns one player mesh and one food mesh.
\<close>

theorem C8_empty_snapshot_witness:
  "sceneRef populatedGame
   \<and> snd (updatePlayerMeshes ''a1'' [] populatedGame) = [SceneRemove (PlayerMesh ''a1'')]
   \<and> playerMeshesRef (fst (updatePlayerMeshes ''a1'' [] populatedGame)) = []
   \<and> snd (updatePlayerMeshes ''a1'' [] (fst (updatePlayerMeshes ''a1'' [] populatedGame))) = []
   \<and> snd (updateFoodMeshes [] populatedGame) =
        [SceneRemove (FoodMesh 7), GeometryDispose (FoodMesh 7), MaterialDispose (FoodMesh 7)]
   \<and> foodMeshesRef (fst (updateFoodMeshes [] populatedGame)) = []
   \<and> snd (updateFoodMeshes [] (fst (updateFoodMeshes [] populatedGame))) = []"
proof -
  have s: "sceneRef populatedGame" by (simp add: populatedGame_eq mountedGame_eq)
  have m: "playerMeshesRef populatedGame = [(''a1'', aliceMesh)]"
    "foodMeshesRef populatedGame = [(7, food7Mesh)]"
    by (simp_all add: populatedGame_eq)
  show ?thesis
    using C8_empty_snapshot [OF s, of "''a1''"] by (simp add: s m)
qed

section \<open>One pass of the player loop\<close>

lemma radius_test:
  "(case currentRadius m of None \<Rightarrow> True | Some r \<Rightarrow> strictNotEqual r (radius p))
     \<longleftrightarrow> \<not> (currentRadius m = Some (radius p) \<and> radius p \<noteq> NaN)"
  by (auto simp: strictNotEqual_def split: option.splits)

lemma updatePlayerMesh_offline: "\<not> online p \<Longrightarrow> updatePlayerMesh ident k p g = (g, [])"
  by (simp add: updatePlayerMesh_def)

lemma updatePlayerMesh_new_calls:
  assumes "online p" and "Map_get (playerMeshesRef g) k = None"
  shows "snd (updatePlayerMesh ident k p g) =
           [NewCircleGeometry (radius p) 32, NewMeshBasicMaterial (color p)]
           @ (if k = ident
              then [NewRingGeometry (radius p) (num_add (radius p) (Finite 2)) 32,
                    NewMeshBasicMaterial white, OutlineAdd (PlayerMesh k)]
              else [])
           @ [SceneAdd (PlayerMesh k),
              PositionSet (PlayerMesh k) (pos_x (position p)) (pos_y (position p)) (Finite 0)]"
  using assms by (simp add: updatePlayerMesh_def Let_def)

lemma updatePlayerMesh_existing_calls:
  assumes "online p" and "Map_get (playerMeshesRef g) k = Some m"
  shows "snd (updatePlayerMesh ident k p g) =
           (if \<not> (currentRadius m = Some (radius p) \<and> radius p \<noteq> NaN)
            then [GeometryDispose (PlayerMesh k), NewCircleGeometry (radius p) 32]
                 @ (if k = ident \<and> outline m \<noteq> None
                    then [OutlineGeometryDispose (PlayerMesh k),
                          NewRingGeometry (radius p) (num_add (radius p) (Finite 2)) 32]
                    else [])
            else [])
           @ (if currentColor m \<noteq> Some (color p) then [SetRGB (PlayerMesh k) (color p)] else [])
           @ [PositionSet (PlayerMesh k) (pos_x (position p)) (pos_y (position p)) (Finite 0)]"
  using assms by (simp add: updatePlayerMesh_def Let_def radius_test)

lemma updatePlayerMesh_cached:
  assumes "online p" and "Map_get (playerMeshesRef g) k = Some m"
    and "currentRadius m = Some (radius p)" and "radius p \<noteq> NaN"
    and "currentColor m = Some (color p)"
  shows "updatePlayerMesh ident k p g =
           (g\<lparr>playerMeshesRef :=
                 Map_set k (m\<lparr>mesh_position := (pos_x (position p), pos_y (position p), Finite 0)\<rparr>)
                   (playerMeshesRef g)\<rparr>,
            [PositionSet (PlayerMesh k) (pos_x (position p)) (pos_y (position p)) (Finite 0)])"
  using assms by (cases m) (simp add: updatePlayerMesh_def Let_def strictNotEqual_def)

lemma updatePlayerMesh_get_same:
  assumes "online p"
  shows "\<exists>m. Map_get (playerMeshesRef (fst (updatePlayerMesh ident k p g))) k = Some m
             \<and> currentRadius m = Some (radius p) \<and> currentColor m = Some (color p)"
proof (cases "Map_get (playerMeshesRef g) k")
  case None
  with assms show ?thesis by (simp add: updatePlayerMesh_def Let_def Map_get_set)
next
  case (Some m)
  with assms show ?thesis
    by (auto simp: updatePlayerMesh_def Let_def Map_get_set radius_test)
qed

lemma updatePlayerMesh_get_other:
  assumes "k' \<noteq> k"
  shows "Map_get (playerMeshesRef (fst (updatePlayerMesh ident k p g))) k' = Map_get (playerMeshesRef g) k'"
  using assms by (simp add: updatePlayerMesh_def Let_def Map_get_set split: option.splits)

lemma updatePlayerMesh_snd_cong:
  assumes "Map_get (playerMeshesRef g) k = Map_get (playerMeshesRef g') k"
  shows "snd (updatePlayerMesh ident k p g) = snd (updatePlayerMesh ident k p g')"
proof (cases "online p")
  case False
  then show ?thesis by (simp add: updatePlayerMesh_offline)
next
  case True
  show ?thesis
  proof (cases "Map_get (playerMeshesRef g) k")
    case None
    with assms have "Map_get (playerMeshesRef g') k = None" by simp
    with None True show ?thesis by (simp add: updatePlayerMesh_new_calls)
  next
    case (Some m)
    with assms have "Map_get (playerMeshesRef g') k = Some m" by simp
    with Some True show ?thesis by (simp add: updatePlayerMesh_existing_calls)
  qed
qed

lemma Map_set_dom: "fst ` set (Map_set k v m) = insert k (fst ` set m)"
  by (induction m) auto

lemma updatePlayerMesh_dom:
  "fst ` set (playerMeshesRef (fst (updatePlayerMesh ident k p g))) =
     (if online p then insert k (fst ` set (playerMeshesRef g)) else fst ` set (playerMeshesRef g))"
  by (simp add: updatePlayerMesh_def Let_def Map_set_dom split: option.splits)

lemma addedOwners_append: "addedOwners (xs @ ys) = addedOwners xs @ addedOwners ys"
  by (induction xs rule: addedOwners.induct) simp_all

lemma touchedOwners_append: "touchedOwners (xs @ ys) = touchedOwners xs @ touchedOwners ys"
  by (induction xs) (simp_all split: option.splits)

lemma updatePlayerMesh_added:
  "addedOwners (snd (updatePlayerMesh ident k p g)) =
     (if online p \<and> Map_get (playerMeshesRef g) k = None then [PlayerMesh k] else [])"
proof (cases "online p")
  case False
  then show ?thesis by (simp add: updatePlayerMesh_offline)
next
  case True
  show ?thesis
  proof (cases "Map_get (playerMeshesRef g) k")
    case None
    with True show ?thesis by (simp add: updatePlayerMesh_new_calls)
  next
    case (Some m)
    with True show ?thesis by (simp add: updatePlayerMesh_existing_calls)
  qed
qed

lemma updatePlayerMesh_touched:
  "\<exists>n. (online p \<longrightarrow> 0 < n)
      \<and> touchedOwners (snd (updatePlayerMesh ident k p g)) = replicate n (PlayerMesh k)"
proof (cases "online p")
  case False
  then have "touchedOwners (snd (updatePlayerMesh ident k p g)) = replicate 0 (PlayerMesh k)"
    by (simp add: updatePlayerMesh_offline)
  with False show ?thesis by blast
next
  case True
  have "\<exists>n. 0 < n \<and> touchedOwners (snd (updatePlayerMesh ident k p g)) = replicate n (PlayerMesh k)"
  proof (cases "Map_get (playerMeshesRef g) k")
    case None
    show ?thesis
    proof (cases "k = ident")
      case True
      with None \<open>online p\<close>
      have "touchedOwners (snd (updatePlayerMesh ident k p g)) = replicate 3 (PlayerMesh k)"
        by (simp add: updatePlayerMesh_new_calls numeral_3_eq_3)
      then show ?thesis by (intro exI [of _ 3]) simp
    next
      case False
      with None \<open>online p\<close>
      have "touchedOwners (snd (updatePlayerMesh ident k p g)) = replicate 2 (PlayerMesh k)"
        by (simp add: updatePlayerMesh_new_calls numeral_2_eq_2)
      then show ?thesis by (intro exI [of _ 2]) simp
    qed
  next
    case (Some m)
    let ?a = "if \<not> (currentRadius m = Some (radius p) \<and> radius p \<noteq> NaN)
              then Suc (if k = ident \<and> outline m \<noteq> None then 1 else 0) else 0"
    let ?b = "if currentColor m \<noteq> Some (color p) then 1 else (0::nat)"
    from Some True
    have "touchedOwners (snd (updatePlayerMesh ident k p g)) = replicate (Suc (?a + ?b)) (PlayerMesh k)"
      by (auto simp: updatePlayerMesh_existing_calls touchedOwners_append)
    then show ?thesis by (intro exI [of _ "Suc (?a + ?b)"]) simp
  qed
  with True show ?thesis by blast
qed

lemma updatePlayerMesh_existing:
  assumes "online p" and "Map_get (playerMeshesRef g) k = Some m"
  shows "(filter isAllocation (snd (updatePlayerMesh ident k p g)) = [] \<longleftrightarrow>
            currentRadius m = Some (radius p) \<and> radius p \<noteq> NaN)
       \<and> (SetRGB (PlayerMesh k) (color p) \<in> set (snd (updatePlayerMesh ident k p g)) \<longleftrightarrow>
            currentColor m \<noteq> Some (color p))
       \<and> (\<forall>c. NewMeshBasicMaterial c \<notin> set (snd (updatePlayerMesh ident k p g)))"
  unfolding updatePlayerMesh_existing_calls [OF assms] by simp

lemma updatePlayerMesh_myPlayerRef:
  "myPlayerRef (fst (updatePlayerMesh ident k p g)) = myPlayerRef g
   \<or> (k = ident \<and> online p \<and> SceneAdd (PlayerMesh ident) \<in> set (snd (updatePlayerMesh ident k p g)))"
  by (simp add: updatePlayerMesh_def Let_def split: option.splits)

lemma updatePlayerMesh_other_refs:
  "keysRef (fst (updatePlayerMesh ident k p g)) = keysRef g
   \<and> cameraRef (fst (updatePlayerMesh ident k p g)) = cameraRef g
   \<and> foodMeshesRef (fst (updatePlayerMesh ident k p g)) = foodMeshesRef g
   \<and> lastUpdateRef (fst (updatePlayerMesh ident k p g)) = lastUpdateRef g"
  by (simp add: updatePlayerMesh_def Let_def split: option.splits)

section \<open>The whole player loop\<close>

lemma updateSortedPlayers_get_other:
  assumes "k \<notin> fst ` set es"
  shows "Map_get (playerMeshesRef (fst (updateSortedPlayers ident es g))) k = Map_get (playerMeshesRef g) k"
  using assms
proof (induction es arbitrary: g)
  case Nil
  then show ?case by simp
next
  case (Cons a es)
  obtain k' p where a: "a = (k', p)" by (cases a)
  from Cons.prems have "k \<noteq> k'" and "k \<notin> fst ` set es" by (auto simp: a)
  then show ?case
    by (simp add: a updateSortedPlayers_Cons Cons.IH updatePlayerMesh_get_other)
qed

lemma updateSortedPlayers_dom:
  "fst ` set (playerMeshesRef (fst (updateSortedPlayers ident es g))) =
     fst ` set (playerMeshesRef g) \<union> {k. \<exists>p. (k, p) \<in> set es \<and> online p}"
proof (induction es arbitrary: g)
  case Nil
  then show ?case by simp
next
  case (Cons a es)
  obtain k p where a: "a = (k, p)" by (cases a)
  show ?case
    by (auto simp: a updateSortedPlayers_Cons Cons.IH updatePlayerMesh_dom)
qed

lemma updateSortedPlayers_fills:
  assumes "distinct (map fst es)" and "e \<in> set es" and "online (snd e)"
  shows "\<exists>m. Map_get (playerMeshesRef (fst (updateSortedPlayers ident es g))) (fst e) = Some m
             \<and> currentRadius m = Some (radius (snd e)) \<and> currentColor m = Some (color (snd e))"
  using assms
proof (induction es arbitrary: g)
  case Nil
  then show ?case by simp
next
  case (Cons a es)
  obtain k p where a: "a = (k, p)" by (cases a)
  from Cons.prems(1) have d: "distinct (map fst es)" and k: "k \<notin> fst ` set es" by (auto simp: a)
  show ?case
  proof (cases "e = a")
    case True
    with Cons.prems(3) have "online p" by (simp add: a)
    then show ?thesis
      using updatePlayerMesh_get_same [of p ident k g]
      by (simp add: True a updateSortedPlayers_Cons updateSortedPlayers_get_other [OF k])
  next
    case False
    with Cons.prems(2) have "e \<in> set es" by simp
    from Cons.IH [OF d this Cons.prems(3)] show ?thesis
      by (simp add: a updateSortedPlayers_Cons)
  qed
qed

lemma updateSortedPlayers_cached:
  assumes "\<forall>e\<in>set es. online (snd e) \<longrightarrow>
             radius (snd e) \<noteq> NaN
             \<and> (\<exists>m. Map_get (playerMeshesRef g) (fst e) = Some m
                  \<and> currentRadius m = Some (radius (snd e)) \<and> currentColor m = Some (color (snd e)))"
  shows "snd (updateSortedPlayers ident es g) =
           map (\<lambda>e. PositionSet (PlayerMesh (fst e)) (pos_x (position (snd e)))
                      (pos_y (position (snd e))) (Finite 0))
             (filter (\<lambda>e. online (snd e)) es)"
  using assms
proof (induction es arbitrary: g)
  case Nil
  then show ?case by simp
next
  case (Cons a es)
  obtain k p where a: "a = (k, p)" by (cases a)
  show ?case
  proof (cases "online p")
    case False
    then show ?thesis
      using Cons.prems by (simp add: a updateSortedPlayers_Cons updatePlayerMesh_offline Cons.IH)
  next
    case True
    with Cons.prems obtain m where m: "Map_get (playerMeshesRef g) k = Some m"
      "currentRadius m = Some (radius p)" "radius p \<noteq> NaN" "currentColor m = Some (color p)"
      by (auto simp: a)
    let ?g = "fst (updatePlayerMesh ident k p g)"
    have step: "updatePlayerMesh ident k p g =
           (g\<lparr>playerMeshesRef :=
                 Map_set k (m\<lparr>mesh_position := (pos_x (position p), pos_y (position p), Finite 0)\<rparr>)
                   (playerMeshesRef g)\<rparr>,
            [PositionSet (PlayerMesh k) (pos_x (position p)) (pos_y (position p)) (Finite 0)])"
      by (rule updatePlayerMesh_cached [OF True m])
    have "\<forall>e\<in>set es. online (snd e) \<longrightarrow>
             radius (snd e) \<noteq> NaN
             \<and> (\<exists>m. Map_get (playerMeshesRef ?g) (fst e) = Some m
                  \<and> currentRadius m = Some (radius (snd e)) \<and> currentColor m = Some (color (snd e)))"
    proof (intro ballI impI)
      fix e assume e: "e \<in> set es" "online (snd e)"
      with Cons.prems obtain m' where m': "Map_get (playerMeshesRef g) (fst e) = Some m'"
        "currentRadius m' = Some (radius (snd e))" "currentColor m' = Some (color (snd e))"
        and r: "radius (snd e) \<noteq> NaN"
        by auto
      have "\<exists>m. Map_get (playerMeshesRef ?g) (fst e) = Some m
                  \<and> currentRadius m = Some (radius (snd e)) \<and> currentColor m = Some (color (snd e))"
      proof (cases "fst e = k")
        case True
        with m m' have "m' = m" by simp
        with m' True show ?thesis by (simp add: step Map_get_set)
      next
        case False
        with m' show ?thesis by (simp add: step Map_get_set)
      qed
      with r show "radius (snd e) \<noteq> NaN
             \<and> (\<exists>m. Map_get (playerMeshesRef ?g) (fst e) = Some m
                  \<and> currentRadius m = Some (radius (snd e)) \<and> currentColor m = Some (color (snd e)))"
        by blast
    qed
    from Cons.IH [OF this] show ?thesis
      using True by (simp add: a updateSortedPlayers_Cons step)
  qed
qed

lemma updateSortedPlayers_calls:
  assumes "distinct (map fst es)"
  shows "snd (updateSortedPlayers ident es g) =
           concat (map (\<lambda>e. snd (updatePlayerMesh ident (fst e) (snd e) g)) es)"
  using assms
proof (induction es arbitrary: g)
  case Nil
  then show ?case by simp
next
  case (Cons a es)
  obtain k p where a: "a = (k, p)" by (cases a)
  from Cons.prems have d: "distinct (map fst es)" and k: "k \<notin> fst ` set es" by (auto simp: a)
  let ?g = "fst (updatePlayerMesh ident k p g)"
  have "snd (updatePlayerMesh ident (fst e) (snd e) ?g) = snd (updatePlayerMesh ident (fst e) (snd e) g)"
    if "e \<in> set es" for e
  proof (rule updatePlayerMesh_snd_cong)
    from that k have "fst e \<noteq> k" by auto
    then show "Map_get (playerMeshesRef ?g) (fst e) = Map_get (playerMeshesRef g) (fst e)"
      by (rule updatePlayerMesh_get_other)
  qed
  then have "map (\<lambda>e. snd (updatePlayerMesh ident (fst e) (snd e) ?g)) es
           = map (\<lambda>e. snd (updatePlayerMesh ident (fst e) (snd e) g)) es"
    by simp
  with Cons.IH [OF d, of ?g] show ?case
    by (simp add: a updateSortedPlayers_Cons)
qed

lemma updateSortedPlayers_added:
  assumes "distinct (map fst es)" and "\<forall>e\<in>set es. online (snd e)"
  shows "addedOwners (snd (updateSortedPlayers ident es g)) =
           map PlayerMesh (filter (\<lambda>k. \<not> Map_has (playerMeshesRef g) k) (map fst es))"
proof -
  have "addedOwners (concat (map (\<lambda>e. snd (updatePlayerMesh ident (fst e) (snd e) g)) xs)) =
          map PlayerMesh (filter (\<lambda>k. \<not> Map_has (playerMeshesRef g) k) (map fst xs))"
    if "\<forall>e\<in>set xs. online (snd e)" for xs
    using that
    by (induction xs) (simp_all add: addedOwners_append updatePlayerMesh_added Map_has_def)
  with assms show ?thesis by (simp add: updateSortedPlayers_calls)
qed

lemma updateSortedPlayers_touched:
  assumes "\<forall>e\<in>set es. online (snd e)"
  shows "\<exists>ns. length ns = length es \<and> (\<forall>n\<in>set ns. 0 < n)
           \<and> touchedOwners (snd (updateSortedPlayers ident es g)) =
               concat (map (\<lambda>(e, n). replicate n (PlayerMesh (fst e))) (zip es ns))"
  using assms
proof (induction es arbitrary: g)
  case Nil
  then show ?case by simp
next
  case (Cons a es)
  obtain k p where a: "a = (k, p)" by (cases a)
  let ?g = "fst (updatePlayerMesh ident k p g)"
  from Cons.prems have "online p" and rest: "\<forall>e\<in>set es. online (snd e)" by (simp_all add: a)
  with updatePlayerMesh_touched [of p ident k g] obtain n where n: "0 < n"
    "touchedOwners (snd (updatePlayerMesh ident k p g)) = replicate n (PlayerMesh k)"
    by blast
  from Cons.IH [OF rest, of ?g] obtain ns where ns: "length ns = length es" "\<forall>n\<in>set ns. 0 < n"
    "touchedOwners (snd (updateSortedPlayers ident es ?g)) =
       concat (map (\<lambda>(e, n). replicate n (PlayerMesh (fst e))) (zip es ns))"
    by blast
  have "length (n # ns) = length (a # es)" using ns(1) by simp
  moreover have "\<forall>m\<in>set (n # ns). 0 < m" using n(1) ns(2) by simp
  moreover have "touchedOwners (snd (updateSortedPlayers ident (a # es) g)) =
      concat (map (\<lambda>(e, n). replicate n (PlayerMesh (fst e))) (zip (a # es) (n # ns)))"
    by (simp add: a updateSortedPlayers_Cons touchedOwners_append n(2) ns(3))
  ultimately show ?case by blast
qed

lemma updateSortedPlayers_myPlayerRef:
  "myPlayerRef (fst (updateSortedPlayers ident es g)) = myPlayerRef g
   \<or> ((\<exists>p. (ident, p) \<in> set es \<and> online p)
       \<and> SceneAdd (PlayerMesh ident) \<in> set (snd (updateSortedPlayers ident es g)))"
proof (induction es arbitrary: g)
  case Nil
  then show ?case by simp
next
  case (Cons a es)
  obtain k p where a: "a = (k, p)" by (cases a)
  from Cons.IH [of "fst (updatePlayerMesh ident k p g)"] updatePlayerMesh_myPlayerRef [of ident k p g]
  show ?case
    by (auto simp: a updateSortedPlayers_Cons)
qed

lemma updateSortedPlayers_other_refs:
  "keysRef (fst (updateSortedPlayers ident es g)) = keysRef g
   \<and> cameraRef (fst (updateSortedPlayers ident es g)) = cameraRef g
   \<and> foodMeshesRef (fst (updateSortedPlayers ident es g)) = foodMeshesRef g
   \<and> lastUpdateRef (fst (updateSortedPlayers ident es g)) = lastUpdateRef g"
proof (induction es arbitrary: g)
  case Nil
  then show ?case by simp
next
  case (Cons a es)
  obtain k p where a: "a = (k, p)" by (cases a)
  show ?case
    by (simp add: a updateSortedPlayers_Cons Cons.IH updatePlayerMesh_other_refs)
qed

section \<open>The sorted entries\<close>

lemma sortedPlayers_set: "set (sortedPlayers players) = {e \<in> set players. online (snd e)}"
  by (auto simp: sortedPlayers_def set_Array_sort)

lemma sortedPlayers_all_online: "\<forall>e\<in>set (sortedPlayers players). online (snd e)"
  by (simp add: sortedPlayers_set)

lemma sortedPlayers_online: "filter (\<lambda>e. online (snd e)) (sortedPlayers players) = sortedPlayers players"
  by (simp add: sortedPlayers_set)

lemma sortedPlayers_sorted:
  assumes "\<forall>e\<in>set players. online (snd e) \<longrightarrow> radius (snd e) \<noteq> NaN"
  shows "sorted_wrt (\<lambda>a b. num_le (radius (snd a)) (radius (snd b))) (sortedPlayers players)"
  unfolding sortedPlayers_def
  by (rule sorted_Array_sort) (use assms in simp)

lemma sortedPlayers_distinct:
  assumes "distinct (map fst players)"
  shows "distinct (map fst (sortedPlayers players))"
proof -
  have "distinct (map fst (filter (\<lambda>e. online (snd e)) players))"
    using assms by (rule distinct_map_filter)
  then show ?thesis
    by (simp add: sortedPlayers_def distinct_map_Array_sort)
qed

section \<open>The food loop\<close>

lemma updateFoodMesh_dom:
  "fst ` set (fst (updateFoodMesh f ms)) = insert (food_id f) (fst ` set ms)"
  by (simp add: updateFoodMesh_def Let_def Map_set_dom split: option.splits)

lemma updateCurrentFood_dom:
  "fst ` set (fst (updateCurrentFood fs ms)) = fst ` set ms \<union> food_id ` set fs"
  by (induction fs arbitrary: ms) (auto simp: updateCurrentFood_Cons updateFoodMesh_dom)

lemma updateFoodMesh_present:
  assumes "food_id f \<in> fst ` set ms"
  shows "snd (updateFoodMesh f ms) =
           [PositionSet (FoodMesh (food_id f)) (pos_x (food_position f)) (pos_y (food_position f)) (Finite (- 1 / 2))]"
proof -
  from assms obtain m where "Map_get ms (food_id f) = Some m"
    using Map_get_None_iff [of ms "food_id f"] by auto
  then show ?thesis by (simp add: updateFoodMesh_def Let_def)
qed

lemma updateCurrentFood_present:
  assumes "food_id ` set fs \<subseteq> fst ` set ms"
  shows "snd (updateCurrentFood fs ms) =
           map (\<lambda>f. PositionSet (FoodMesh (food_id f)) (pos_x (food_position f))
                      (pos_y (food_position f)) (Finite (- 1 / 2))) fs"
  using assms
proof (induction fs arbitrary: ms)
  case Nil
  then show ?case by simp
next
  case (Cons f fs)
  from Cons.prems have here: "food_id f \<in> fst ` set ms" by simp
  from Cons.prems have "food_id ` set fs \<subseteq> fst ` set (fst (updateFoodMesh f ms))"
    by (auto simp: updateFoodMesh_dom)
  from Cons.IH [OF this] show ?case
    by (simp add: updateCurrentFood_Cons updateFoodMesh_present [OF here])
qed

section \<open>What the effects own afterwards\<close>

lemma updateFoodMeshes_dom:
  assumes "sceneRef g"
  shows "fst ` set (foodMeshesRef (fst (updateFoodMeshes fs g))) = food_id ` set fs"
  using assms by (auto simp: updateFoodMeshes_unfold updateCurrentFood_dom)

lemma updatePlayerMeshes_dom:
  assumes "sceneRef g"
  shows "fst ` set (playerMeshesRef (fst (updatePlayerMeshes ident players g))) =
           {k \<in> fst ` set (playerMeshesRef g). Map_has players k}
           \<union> {k. \<exists>p. (k, p) \<in> set players \<and> online p}"
  using assms
  by (auto simp: updatePlayerMeshes_unfold updateSortedPlayers_dom sortedPlayers_set)

section \<open>Running an effect twice\<close>

lemma filter_all: "(\<And>x. x \<in> set xs \<Longrightarrow> P x) \<Longrightarrow> filter P xs = xs"
  by (induction xs) auto

lemma filter_none: "(\<And>x. x \<in> set xs \<Longrightarrow> \<not> P x) \<Longrightarrow> filter P xs = []"
  by (induction xs) auto

lemma updatePlayerMeshes_again:
  assumes "sceneRef g" and "distinct (map fst players)"
    and "\<forall>e\<in>set players. online (snd e) \<longrightarrow> radius (snd e) \<noteq> NaN"
  shows "snd (updatePlayerMeshes ident players (fst (updatePlayerMeshes ident players g))) =
           map (\<lambda>e. PositionSet (PlayerMesh (fst e)) (pos_x (position (snd e)))
                      (pos_y (position (snd e))) (Finite 0))
             (sortedPlayers players)"
proof -
  let ?g0 = "g\<lparr>playerMeshesRef := filter (\<lambda>e. Map_has players (fst e)) (playerMeshesRef g)\<rparr>"
  let ?g1 = "fst (updateSortedPlayers ident (sortedPlayers players) ?g0)"
  have g1: "fst (updatePlayerMeshes ident players g) = ?g1"
    by (simp only: updatePlayerMeshes_unfold [OF assms(1)] fst_conv)
  have s1: "sceneRef ?g1"
    using assms(1) by (simp add: sceneRef_updateSortedPlayers)
  have owned: "Map_has players (fst e)" if "e \<in> set (playerMeshesRef ?g1)" for e
  proof -
    from that have "fst e \<in> fst ` set (playerMeshesRef ?g1)" by (rule imageI)
    then have "fst e \<in> fst ` set (playerMeshesRef ?g0) \<or> (\<exists>p. (fst e, p) \<in> set players \<and> online p)"
      by (auto simp: updateSortedPlayers_dom sortedPlayers_set)
    then show ?thesis
    proof
      assume "fst e \<in> fst ` set (playerMeshesRef ?g0)"
      then show ?thesis by auto
    next
      assume "\<exists>p. (fst e, p) \<in> set players \<and> online p"
      then have "fst e \<in> fst ` set players" by force
      then show ?thesis by (simp add: Map_has_iff)
    qed
  qed
  have keep: "filter (\<lambda>e. Map_has players (fst e)) (playerMeshesRef ?g1) = playerMeshesRef ?g1"
    by (rule filter_all) (rule owned)
  have none: "filter (\<lambda>e. \<not> Map_has players (fst e)) (playerMeshesRef ?g1) = []"
  proof (rule filter_none)
    fix x assume "x \<in> set (playerMeshesRef ?g1)"
    then have "Map_has players (fst x)" by (rule owned)
    then show "\<not> \<not> Map_has players (fst x)" by simp
  qed
  have same: "?g1\<lparr>playerMeshesRef := playerMeshesRef ?g1\<rparr> = ?g1" by simp
  have cached: "\<forall>e\<in>set (sortedPlayers players). online (snd e) \<longrightarrow>
             radius (snd e) \<noteq> NaN
             \<and> (\<exists>m. Map_get (playerMeshesRef ?g1) (fst e) = Some m
                  \<and> currentRadius m = Some (radius (snd e)) \<and> currentColor m = Some (color (snd e)))"
  proof (intro ballI impI conjI)
    fix e assume e: "e \<in> set (sortedPlayers players)" "online (snd e)"
    then have "e \<in> set players" by (simp add: sortedPlayers_set)
    with assms(3) e(2) show "radius (snd e) \<noteq> NaN" by blast
    from e show "\<exists>m. Map_get (playerMeshesRef ?g1) (fst e) = Some m
                  \<and> currentRadius m = Some (radius (snd e)) \<and> currentColor m = Some (color (snd e))"
      by (rule updateSortedPlayers_fills [OF sortedPlayers_distinct [OF assms(2)]])
  qed
  have "snd (updatePlayerMeshes ident players ?g1) =
          snd (updateSortedPlayers ident (sortedPlayers players) ?g1)"
    unfolding updatePlayerMeshes_unfold [OF s1] keep none same by simp
  also have "\<dots> = map (\<lambda>e. PositionSet (PlayerMesh (fst e)) (pos_x (position (snd e)))
                      (pos_y (position (snd e))) (Finite 0))
             (sortedPlayers players)"
    unfolding updateSortedPlayers_cached [OF cached] sortedPlayers_online ..
  finally show ?thesis by (simp only: g1)
qed

lemma updateFoodMeshes_again:
  assumes "sceneRef g"
  shows "snd (updateFoodMeshes fs (fst (updateFoodMeshes fs g))) =
           map (\<lambda>f. PositionSet (FoodMesh (food_id f)) (pos_x (food_position f))
                      (pos_y (food_position f)) (Finite (- 1 / 2))) fs"
proof -
  let ?g1 = "fst (updateFoodMeshes fs g)"
  have s1: "sceneRef ?g1" using assms by (simp add: sceneRef_updateFoodMeshes)
  have dom: "fst ` set (foodMeshesRef ?g1) = food_id ` set fs"
    by (rule updateFoodMeshes_dom [OF assms])
  have keep: "filter (\<lambda>e. fst e \<in> food_id ` set fs) (foodMeshesRef ?g1) = foodMeshesRef ?g1"
    by (rule filter_all) (use dom in blast)
  have none: "filter (\<lambda>e. fst e \<notin> food_id ` set fs) (foodMeshesRef ?g1) = []"
    by (rule filter_none) (use dom in blast)
  have "snd (updateFoodMeshes fs ?g1) = snd (updateCurrentFood fs (foodMeshesRef ?g1))"
    unfolding updateFoodMeshes_unfold [OF s1] keep none by simp
  also have "\<dots> = map (\<lambda>f. PositionSet (FoodMesh (food_id f)) (pos_x (food_position f))
                      (pos_y (food_position f)) (Finite (- 1 / 2))) fs"
    by (rule updateCurrentFood_present) (simp add: dom)
  finally show ?thesis .
qed

lemma no_scene_player: "\<not> sceneRef g \<Longrightarrow> updatePlayerMeshes ident players g = (g, [])"
  by (simp add: updatePlayerMeshes_def)

lemma no_scene_food: "\<not> sceneRef g \<Longrightarrow> updateFoodMeshes fs g = (g, [])"
  by (simp add: updateFoodMeshes_def)

lemma num_less_irrefl: "\<not> num_less a a"
  by (cases a) simp_all

lemma Map_has_filter:
  "Map_has (filter (\<lambda>e. P (fst e)) m) k \<longleftrightarrow> P k \<and> Map_has m k"
  by (auto simp: Map_has_iff)

lemma addedOwners_removals: "addedOwners (map (\<lambda>e. SceneRemove (PlayerMesh (fst e))) xs) = []"
  by (induction xs) simp_all

lemma touchedOwners_removals: "touchedOwners (map (\<lambda>e. SceneRemove (PlayerMesh (fst e))) xs) = []"
  by (induction xs) simp_all

lemma updatePlayerMeshes_added:
  assumes "sceneRef g" and "distinct (map fst players)"
  shows "addedOwners (snd (updatePlayerMeshes ident players g)) =
           map PlayerMesh (filter (\<lambda>k. \<not> Map_has (playerMeshesRef g) k) (map fst (sortedPlayers players)))"
proof -
  let ?g0 = "g\<lparr>playerMeshesRef := filter (\<lambda>e. Map_has players (fst e)) (playerMeshesRef g)\<rparr>"
  have "Map_has (playerMeshesRef ?g0) k \<longleftrightarrow> Map_has (playerMeshesRef g) k"
    if "k \<in> set (map fst (sortedPlayers players))" for k
  proof -
    from that have "k \<in> fst ` set players" by (auto simp: sortedPlayers_set)
    then have "Map_has players k" by (simp add: Map_has_iff)
    then show ?thesis by (simp add: Map_has_filter)
  qed
  then have "filter (\<lambda>k. \<not> Map_has (playerMeshesRef ?g0) k) (map fst (sortedPlayers players))
           = filter (\<lambda>k. \<not> Map_has (playerMeshesRef g) k) (map fst (sortedPlayers players))"
    by (intro filter_cong) simp_all
  then show ?thesis
    unfolding updatePlayerMeshes_unfold [OF assms(1)]
    by (simp add: addedOwners_append addedOwners_removals
        updateSortedPlayers_added [OF sortedPlayers_distinct [OF assms(2)] sortedPlayers_all_online])
qed

lemma updatePlayerMeshes_touched:
  assumes "sceneRef g"
  shows "\<exists>ns. length ns = length (sortedPlayers players) \<and> (\<forall>n\<in>set ns. 0 < n)
           \<and> touchedOwners (snd (updatePlayerMeshes ident players g)) =
               concat (map (\<lambda>(e, n). replicate n (PlayerMesh (fst e))) (zip (sortedPlayers players) ns))"
  unfolding updatePlayerMeshes_unfold [OF assms]
  using updateSortedPlayers_touched [OF sortedPlayers_all_online, of players ident]
  by (simp add: touchedOwners_append touchedOwners_removals)

lemma carol_renders:
  "updatePlayerMeshes ''a1'' [(''c3'', carol)] mountedGame =
     (mountedGame\<lparr>playerMeshesRef :=
        [(''c3'', \<lparr>geometry = NaN, material = color carol, outline = None,
                    mesh_position = (Finite 0, Finite 0, Finite 0), currentRadius = Some NaN,
                    currentColor = Some (color carol)\<rparr>)]\<rparr>,
      [NewCircleGeometry NaN 32, NewMeshBasicMaterial (color carol), SceneAdd (PlayerMesh ''c3''),
       PositionSet (PlayerMesh ''c3'') (Finite 0) (Finite 0) (Finite 0)])"
  "snd (updatePlayerMeshes ''a1'' [(''c3'', carol)]
     (mountedGame\<lparr>playerMeshesRef :=
        [(''c3'', \<lparr>geometry = NaN, material = color carol, outline = None,
                    mesh_position = (Finite 0, Finite 0, Finite 0), currentRadius = Some NaN,
                    currentColor = Some (color carol)\<rparr>)]\<rparr>)) =
     [GeometryDispose (PlayerMesh ''c3''), NewCircleGeometry NaN 32,
      PositionSet (PlayerMesh ''c3'') (Finite 0) (Finite 0) (Finite 0)]"
  by (simp_all add: updatePlayerMeshes_def mountedGame_eq sortedPlayers_single updateSortedPlayers_Cons
      updatePlayerMesh_def carol_def Let_def Map_has_def strictNotEqual_def)

text \<open>
  C7, as stated, fails for a player whose radius is NaN: \<open>carol\<close> gets her mesh in a
  first run of the player effect, and a second run on the same \<open>players\<close> map disposes
  her geometry and allocates a new one, because \<open>NaN !== NaN\<close>.
\<close>

theorem C7_nan_radius_counterexample:
  "snd (updatePlayerMeshes ''a1'' [(''c3'', carol)]
         (fst (updatePlayerMeshes ''a1'' [(''c3'', carol)] mountedGame))) =
     [GeometryDispose (PlayerMesh ''c3''), NewCircleGeometry NaN 32,
      PositionSet (PlayerMesh ''c3'') (Finite 0) (Finite 0) (Finite 0)]
   \<and> filter isAllocation
        (snd (updatePlayerMeshes ''a1'' [(''c3'', carol)]
               (fst (updatePlayerMeshes ''a1'' [(''c3'', carol)] mountedGame)))) \<noteq> []"
  by (simp add: carol_renders)

text \<open>
  C7, amended. When the player effect runs twice in a row on one \<open>players\<close> map in
  which no online player has a NaN radius, the second run allocates no geometry and no
  material; the food effect run twice on one array allocates nothing in its second run. In one pass of
  the player loop over an online player that has a mesh, no geometry is allocated
  exactly when the radius equals the cached \<open>currentRadius\<close> and is not NaN (so a NaN
  radius rebuilds the geometry in every pass), the material is recoloured exactly when
  the colour differs from the cached \<open>currentColor\<close>, and no material is allocated. A
  food item that has a mesh allocates nothing.
\<close>

theorem C7_no_redundant_rebuild:
  assumes "distinct (map fst players)"
  shows "((\<forall>e\<in>set players. online (snd e) \<longrightarrow> radius (snd e) \<noteq> NaN) \<longrightarrow>
            filter isAllocation
              (snd (updatePlayerMeshes ident players (fst (updatePlayerMeshes ident players g)))) = [])
       \<and> filter isAllocation (snd (updateFoodMeshes fs (fst (updateFoodMeshes fs g)))) = []
       \<and> (online p \<and> Map_get (playerMeshesRef g) k = Some m \<longrightarrow>
            (filter isAllocation (snd (updatePlayerMesh ident k p g)) = [] \<longleftrightarrow>
               currentRadius m = Some (radius p) \<and> radius p \<noteq> NaN)
            \<and> (SetRGB (PlayerMesh k) (color p) \<in> set (snd (updatePlayerMesh ident k p g)) \<longleftrightarrow>
                 currentColor m \<noteq> Some (color p))
            \<and> (\<forall>c. NewMeshBasicMaterial c \<notin> set (snd (updatePlayerMesh ident k p g))))
       \<and> (food_id f \<in> fst ` set (foodMeshesRef g) \<longrightarrow>
            filter isAllocation (snd (updateFoodMesh f (foodMeshesRef g))) = [])"
proof -
  have a: "filter isAllocation
           (snd (updatePlayerMeshes ident players (fst (updatePlayerMeshes ident players g)))) = []"
    if n: "\<forall>e\<in>set players. online (snd e) \<longrightarrow> radius (snd e) \<noteq> NaN"
  proof (cases "sceneRef g")
    case True
    show ?thesis
      unfolding updatePlayerMeshes_again [OF True assms n] by (simp add: filter_empty_conv)
  next
    case False
    then show ?thesis by (simp add: no_scene_player)
  qed
  have b: "filter isAllocation (snd (updateFoodMeshes fs (fst (updateFoodMeshes fs g)))) = []"
  proof (cases "sceneRef g")
    case True
    show ?thesis
      unfolding updateFoodMeshes_again [OF True] by (simp add: filter_empty_conv)
  next
    case False
    then show ?thesis by (simp add: no_scene_food)
  qed
  have c: "online p \<and> Map_get (playerMeshesRef g) k = Some m \<longrightarrow>
            (filter isAllocation (snd (updatePlayerMesh ident k p g)) = [] \<longleftrightarrow>
               currentRadius m = Some (radius p) \<and> radius p \<noteq> NaN)
            \<and> (SetRGB (PlayerMesh k) (color p) \<in> set (snd (updatePlayerMesh ident k p g)) \<longleftrightarrow>
                 currentColor m \<noteq> Some (color p))
            \<and> (\<forall>c. NewMeshBasicMaterial c \<notin> set (snd (updatePlayerMesh ident k p g)))"
    using updatePlayerMesh_existing [of p g k m ident] by blast
  have d: "food_id f \<in> fst ` set (foodMeshesRef g) \<longrightarrow>
            filter isAllocation (snd (updateFoodMesh f (foodMeshesRef g))) = []"
    by (simp add: updateFoodMesh_present)
  from a b c d show ?thesis by blast
qed

lemma sortedPlayers_alice_bob:
  "sortedPlayers [(''a1'', alice), (''b2'', bob)] = [(''b2'', bob), (''a1'', alice)]"
  by (simp add: sortedPlayers_def Array_sort_Nil Array_sort_Cons num_sub_def alice_def bob_def)

lemma sortedPlayers_mixed: "sortedPlayers mixedPlayers = mixedPlayers"
  by (simp add: sortedPlayers_def mixedPlayers_def Array_sort_Nil Array_sort_Cons num_sub_def
      carol_def dave_def erin_def)

lemma populatedGame_refs:
  "sceneRef populatedGame"
  "playerMeshesRef populatedGame = [(''a1'', aliceMesh)]"
  "foodMeshesRef populatedGame = [(7, food7Mesh)]"
  "myPlayerRef populatedGame = Some alice"
  "keysRef populatedGame = []"
  "cameraRef populatedGame = Some (Finite 0, Finite 0)"
  "lastUpdateRef populatedGame = 0"
  by (simp_all add: populatedGame_eq mountedGame_eq)

lemma mountedGame_refs:
  "sceneRef mountedGame" "keysRef mountedGame = []" "myPlayerRef mountedGame = None"
  "playerMeshesRef mountedGame = []" "foodMeshesRef mountedGame = []"
  "cameraRef mountedGame = Some (Finite 0, Finite 0)" "lastUpdateRef mountedGame = 0"
  by (simp_all add: mountedGame_eq)

text \<open>
  C7, amended, on a \<open>players\<close> map with two online players of finite radius, on the
  array with \<open>food7\<close>, and on a pass over \<open>alice\<close>, whose mesh caches her radius and
  colour.
\<close>

theorem C7_no_redundant_rebuild_witness:
  "distinct (map fst [(''a1'', alice), (''b2'', bob)])
   \<and> radius alice \<noteq> NaN \<and> radius bob \<noteq> NaN
   \<and> filter isAllocation
         (snd (updatePlayerMeshes ''a1'' [(''a1'', alice), (''b2'', bob)]
                 (fst (updatePlayerMeshes ''a1'' [(''a1'', alice), (''b2'', bob)] populatedGame)))) = []
   \<and> filter isAllocation (snd (updateFoodMeshes [food7] (fst (updateFoodMeshes [food7] populatedGame)))) = []
   \<and> online alice \<and> Map_get (playerMeshesRef populatedGame) ''a1'' = Some aliceMesh
   \<and> currentRadius aliceMesh = Some (radius alice)
   \<and> filter isAllocation (snd (updatePlayerMesh ''a1'' ''a1'' alice populatedGame)) = []
   \<and> currentColor aliceMesh = Some (color alice)
   \<and> SetRGB (PlayerMesh ''a1'') (color alice) \<notin> set (snd (updatePlayerMesh ''a1'' ''a1'' alice populatedGame))
   \<and> food_id food7 \<in> fst ` set (foodMeshesRef populatedGame)
   \<and> filter isAllocation (snd (updateFoodMesh food7 (foodMeshesRef populatedGame))) = []"
proof -
  have d: "distinct (map fst [(''a1'', alice), (''b2'', bob)])" by simp
  have r: "radius alice \<noteq> NaN" "radius bob \<noteq> NaN" by (simp_all add: alice_def bob_def)
  then have n: "\<forall>e\<in>set [(''a1'', alice), (''b2'', bob)]. online (snd e) \<longrightarrow> radius (snd e) \<noteq> NaN"
    by simp
  have h: "online alice" "Map_get (playerMeshesRef populatedGame) ''a1'' = Some aliceMesh"
    "currentRadius aliceMesh = Some (radius alice)" "currentColor aliceMesh = Some (color alice)"
    "food_id food7 \<in> fst ` set (foodMeshesRef populatedGame)"
    by (simp_all add: populatedGame_refs aliceMesh_def alice_def food7_def)
  from C7_no_redundant_rebuild [OF d, where ident = "''a1''" and g = populatedGame and fs = "[food7]"
      and p = alice and k = "''a1''" and m = aliceMesh and f = food7] h d r n
  show ?thesis by blast
qed

text \<open>
  C9, as stated, fails when an online player has a NaN radius. In \<open>mixedPlayers\<close> the
  comparator gives NaN for both pairs of neighbours, so the sort leaves the entries in
  place, and the mesh of \<open>dave\<close> (radius 30) is added before that of \<open>erin\<close>
  (radius 10).
\<close>

theorem C9_nan_radius_counterexample:
  "sortedPlayers mixedPlayers = [(''d4'', dave), (''c3'', carol), (''e5'', erin)]
   \<and> addedOwners (snd (updatePlayerMeshes ''a1'' mixedPlayers mountedGame)) =
       [PlayerMesh ''d4'', PlayerMesh ''c3'', PlayerMesh ''e5'']
   \<and> num_less (radius erin) (radius dave)"
proof -
  have d: "distinct (map fst mixedPlayers)" by (simp add: mixedPlayers_def)
  have "addedOwners (snd (updatePlayerMeshes ''a1'' mixedPlayers mountedGame)) =
       [PlayerMesh ''d4'', PlayerMesh ''c3'', PlayerMesh ''e5'']"
    unfolding updatePlayerMeshes_added [OF mountedGame_refs(1) d] sortedPlayers_mixed
    by (simp add: mixedPlayers_def mountedGame_refs Map_has_def)
  moreover have "num_less (radius erin) (radius dave)" by (simp add: erin_def dave_def)
  moreover have "sortedPlayers mixedPlayers = [(''d4'', dave), (''c3'', carol), (''e5'', erin)]"
    unfolding sortedPlayers_mixed by (simp add: mixedPlayers_def)
  ultimately show ?thesis by blast
qed

text \<open>
  C9, amended. Let there be a scene, and let \<open>sp\<close> be \<open>sortedPlayers players\<close>, which
  holds exactly the online entries of \<open>players\<close>. The meshes the player effect adds to
  the scene are those of the entries of \<open>sp\<close> that had no mesh, added in the order of
  \<open>sp\<close>. The calls of the effect that add or change a mesh come in one block per entry
  of \<open>sp\<close>, no block empty, in the order of \<open>sp\<close>. When no online player has a NaN
  radius, \<open>sp\<close> is in ascending order of radius: an earlier entry never has the
  larger radius, so of two online players with different radii the larger one is
  added or updated after the smaller one.
\<close>

theorem C9_upsert_order:
  assumes "sceneRef g" and "distinct (map fst players)"
  shows "set (sortedPlayers players) = {e \<in> set players. online (snd e)}
       \<and> addedOwners (snd (updatePlayerMeshes ident players g)) =
           map PlayerMesh
             (filter (\<lambda>k. \<not> Map_has (playerMeshesRef g) k) (map fst (sortedPlayers players)))
       \<and> (\<exists>ns. length ns = length (sortedPlayers players) \<and> (\<forall>n\<in>set ns. 0 < n)
             \<and> touchedOwners (snd (updatePlayerMeshes ident players g)) =
                 concat (map (\<lambda>(e, n). replicate n (PlayerMesh (fst e)))
                           (zip (sortedPlayers players) ns)))
       \<and> ((\<forall>e\<in>set players. online (snd e) \<longrightarrow> radius (snd e) \<noteq> NaN) \<longrightarrow>
            (\<forall>i j. i < j \<and> j < length (sortedPlayers players) \<longrightarrow>
               num_le (radius (snd (sortedPlayers players ! i))) (radius (snd (sortedPlayers players ! j))))
            \<and> (\<forall>i j. i < length (sortedPlayers players) \<and> j < length (sortedPlayers players)
                 \<and> num_less (radius (snd (sortedPlayers players ! i)))
                      (radius (snd (sortedPlayers players ! j)))
               \<longrightarrow> i < j))"
proof -
  let ?sp = "sortedPlayers players"
  have a: "set ?sp = {e \<in> set players. online (snd e)}" by (rule sortedPlayers_set)
  have b: "addedOwners (snd (updatePlayerMeshes ident players g)) =
           map PlayerMesh (filter (\<lambda>k. \<not> Map_has (playerMeshesRef g) k) (map fst ?sp))"
    by (rule updatePlayerMeshes_added [OF assms(1,2)])
  have c: "\<exists>ns. length ns = length ?sp \<and> (\<forall>n\<in>set ns. 0 < n)
             \<and> touchedOwners (snd (updatePlayerMeshes ident players g)) =
                 concat (map (\<lambda>(e, n). replicate n (PlayerMesh (fst e))) (zip ?sp ns))"
    by (rule updatePlayerMeshes_touched [OF assms(1)])
  have o: "(\<forall>i j. i < j \<and> j < length ?sp \<longrightarrow>
               num_le (radius (snd (?sp ! i))) (radius (snd (?sp ! j))))
            \<and> (\<forall>i j. i < length ?sp \<and> j < length ?sp
                 \<and> num_less (radius (snd (?sp ! i))) (radius (snd (?sp ! j)))
               \<longrightarrow> i < j)"
    if n: "\<forall>e\<in>set players. online (snd e) \<longrightarrow> radius (snd e) \<noteq> NaN"
  proof -
    have s: "sorted_wrt (\<lambda>a b. num_le (radius (snd a)) (radius (snd b))) ?sp"
      by (rule sortedPlayers_sorted [OF n])
    have d: "num_le (radius (snd (?sp ! i))) (radius (snd (?sp ! j)))" if "i < j" "j < length ?sp" for i j
      using s that by (simp add: sorted_wrt_iff_nth_less)
    have e: "i < j" if "i < length ?sp" "j < length ?sp"
        "num_less (radius (snd (?sp ! i))) (radius (snd (?sp ! j)))" for i j
    proof (rule ccontr)
      assume "\<not> i < j"
      then consider "j = i" | "j < i" by linarith
      then show False
      proof cases
        case 1
        with that(3) show False by (simp add: num_less_irrefl)
      next
        case 2
        from d [OF 2 that(1)] that(3) show False by (simp add: num_less_not_le)
      qed
    qed
    from d e show ?thesis by blast
  qed
  from a b c o show ?thesis by blast
qed

text \<open>
  C9, amended, on a mounted component with \<open>alice\<close> (radius 20) before \<open>bob\<close>
  (radius 12) in the map: the mesh of \<open>bob\<close> is added first.
\<close>

theorem C9_upsert_order_witness:
  "sceneRef mountedGame \<and> distinct (map fst [(''a1'', alice), (''b2'', bob)])
   \<and> radius alice \<noteq> NaN \<and> radius bob \<noteq> NaN
   \<and> addedOwners (snd (updatePlayerMeshes ''a1'' [(''a1'', alice), (''b2'', bob)] mountedGame))
       = [PlayerMesh ''b2'', PlayerMesh ''a1'']
   \<and> sortedPlayers [(''a1'', alice), (''b2'', bob)] = [(''b2'', bob), (''a1'', alice)]
   \<and> num_le (radius (snd (sortedPlayers [(''a1'', alice), (''b2'', bob)] ! 0)))
         (radius (snd (sortedPlayers [(''a1'', alice), (''b2'', bob)] ! 1)))
   \<and> num_less (radius bob) (radius alice)"
proof -
  let ?ps = "[(''a1'', alice), (''b2'', bob)]"
  have s: "sceneRef mountedGame" by (rule mountedGame_refs)
  have d: "distinct (map fst ?ps)" by simp
  have r: "radius alice \<noteq> NaN" "radius bob \<noteq> NaN" "num_less (radius bob) (radius alice)"
    by (simp_all add: alice_def bob_def)
  then have n: "\<forall>e\<in>set ?ps. online (snd e) \<longrightarrow> radius (snd e) \<noteq> NaN"
    by simp
  have l: "(0::nat) < 1 \<and> 1 < length (sortedPlayers ?ps)"
    by (simp add: sortedPlayers_alice_bob)
  note t = C9_upsert_order [OF s d, of "''a1''"]
  from t have "addedOwners (snd (updatePlayerMeshes ''a1'' ?ps mountedGame)) =
           map PlayerMesh (filter (\<lambda>k. \<not> Map_has (playerMeshesRef mountedGame) k)
             (map fst (sortedPlayers ?ps)))"
    by blast
  then have a: "addedOwners (snd (updatePlayerMeshes ''a1'' ?ps mountedGame))
       = [PlayerMesh ''b2'', PlayerMesh ''a1'']"
    by (simp add: sortedPlayers_alice_bob mountedGame_refs Map_has_def)
  from t n l have o: "num_le (radius (snd (sortedPlayers ?ps ! 0))) (radius (snd (sortedPlayers ?ps ! 1)))"
    by blast
  from s d r a o sortedPlayers_alice_bob show ?thesis by blast
qed

section \<open>Properties of the component over time\<close>

lemma run_Nil: "run ident c [] = c"
  by (simp add: run_def)

lemma run_snoc: "run ident c (evs @ [ev]) = fst (step ident (run ident c evs) ev)"
  by (simp add: run_def)

lemma updatePlayerMeshes_myPlayerRef:
  "myPlayerRef (fst (updatePlayerMeshes ident ps g)) = myPlayerRef g
   \<or> ((\<exists>p. (ident, p) \<in> set ps \<and> online p)
       \<and> SceneAdd (PlayerMesh ident) \<in> set (snd (updatePlayerMeshes ident ps g)))"
proof (cases "sceneRef g")
  case False
  then show ?thesis by (simp add: no_scene_player)
next
  case True
  let ?g0 = "g\<lparr>playerMeshesRef := filter (\<lambda>e. Map_has ps (fst e)) (playerMeshesRef g)\<rparr>"
  from updateSortedPlayers_myPlayerRef [of ident "sortedPlayers ps" ?g0]
  show ?thesis
    unfolding updatePlayerMeshes_unfold [OF True] by (auto simp: sortedPlayers_set)
qed

lemma updateFoodMeshes_myPlayerRef: "myPlayerRef (fst (updateFoodMeshes fs g)) = myPlayerRef g"
  by (simp add: updateFoodMeshes_def split_beta Let_def)

lemma gameLoop_myPlayerRef:
  "myPlayerRef (fst (gameLoop now ident players g)) \<noteq> None \<Longrightarrow> myPlayerRef g \<noteq> None"
  by (auto simp: gameLoop_def followPlayer_def Let_def split: if_splits option.splits)

lemma step_myPlayerRef:
  assumes "myPlayerRef (snd (fst (step ident c ev))) \<noteq> None"
  shows "myPlayerRef (snd c) \<noteq> None
       \<or> (\<exists>ps. ev = PlayersChanged ps \<and> (\<exists>p. (ident, p) \<in> set ps \<and> online p)
              \<and> SceneAdd (PlayerMesh ident) \<in> set (fst (snd (step ident c ev))))"
proof -
  obtain players g where c: "c = (players, g)" by (cases c)
  show ?thesis
  proof (cases ev)
    case Mount
    with assms show ?thesis by (simp add: c initScene_def)
  next
    case (PlayersChanged ps)
    with assms updatePlayerMeshes_myPlayerRef [of ident ps g] show ?thesis
      by (auto simp: c split_beta)
  next
    case (FoodChanged fs)
    with assms show ?thesis by (simp add: c split_beta updateFoodMeshes_myPlayerRef)
  next
    case (KeyDown k)
    with assms show ?thesis by (simp add: c handleKeyDown_def Let_def split: if_splits)
  next
    case (KeyUp k)
    with assms show ?thesis by (simp add: c handleKeyUp_def)
  next
    case (Frame now)
    with assms gameLoop_myPlayerRef [of now ident players g] show ?thesis
      by (simp add: c split_beta)
  qed
qed

lemma run_myPlayerRef:
  assumes "myPlayerRef (snd (run ident (initialClient t0) evs)) \<noteq> None"
  shows "\<exists>pre ps post. evs = pre @ PlayersChanged ps # post
           \<and> (\<exists>p. (ident, p) \<in> set ps \<and> online p)
           \<and> SceneAdd (PlayerMesh ident)
                \<in> set (fst (snd (step ident (run ident (initialClient t0) pre) (PlayersChanged ps))))"
  using assms
proof (induction evs rule: rev_induct)
  case Nil
  then show ?case by (simp add: run_Nil initialClient_def initialGame_def)
next
  case (snoc ev evs)
  from snoc.prems have "myPlayerRef (snd (fst (step ident (run ident (initialClient t0) evs) ev))) \<noteq> None"
    by (simp add: run_snoc)
  from step_myPlayerRef [OF this]
  show ?case
  proof
    assume "myPlayerRef (snd (run ident (initialClient t0) evs)) \<noteq> None"
    from snoc.IH [OF this] obtain pre ps post where
      "evs = pre @ PlayersChanged ps # post" "\<exists>p. (ident, p) \<in> set ps \<and> online p"
      "SceneAdd (PlayerMesh ident)
         \<in> set (fst (snd (step ident (run ident (initialClient t0) pre) (PlayersChanged ps))))"
      by blast
    then have "evs @ [ev] = pre @ PlayersChanged ps # (post @ [ev])" by simp
    with \<open>\<exists>p. (ident, p) \<in> set ps \<and> online p\<close>
      \<open>SceneAdd (PlayerMesh ident)
         \<in> set (fst (snd (step ident (run ident (initialClient t0) pre) (PlayersChanged ps))))\<close>
    show ?case by blast
  next
    assume "\<exists>ps. ev = PlayersChanged ps \<and> (\<exists>p. (ident, p) \<in> set ps \<and> online p)
              \<and> SceneAdd (PlayerMesh ident)
                   \<in> set (fst (snd (step ident (run ident (initialClient t0) evs) ev)))"
    then obtain ps where "ev = PlayersChanged ps" "\<exists>p. (ident, p) \<in> set ps \<and> online p"
      "SceneAdd (PlayerMesh ident)
         \<in> set (fst (snd (step ident (run ident (initialClient t0) evs) (PlayersChanged ps))))"
      by blast
    moreover from this have "evs @ [ev] = evs @ PlayersChanged ps # []" by simp
    ultimately show ?case by blast
  qed
qed

lemma playerMoved_Some:
  assumes "playerMoved ident players g t = Some np"
  shows "myPlayerRef g \<noteq> None
       \<and> (''w'' \<in> set (keysRef g) \<or> ''a'' \<in> set (keysRef g)
          \<or> ''s'' \<in> set (keysRef g) \<or> ''d'' \<in> set (keysRef g))
       \<and> Map_has players ident"
proof -
  from assms have m: "myPlayerRef g \<noteq> None"
    by (simp add: playerMoved_def split: if_splits)
  from assms have "movementDelta (keysRef g) t \<noteq> (0, 0)"
    by (auto simp: playerMoved_def split: if_splits prod.splits)
  then have k: "''w'' \<in> set (keysRef g) \<or> ''a'' \<in> set (keysRef g)
          \<or> ''s'' \<in> set (keysRef g) \<or> ''d'' \<in> set (keysRef g)"
    by (auto simp: movementDelta_sum split: if_splits)
  from assms have "Map_get players ident \<noteq> None"
    by (auto simp: playerMoved_def split: if_splits prod.splits option.splits)
  then have "Map_has players ident" by (simp add: Map_has_def)
  with m k show ?thesis by blast
qed

lemma step_Frame_sent:
  "snd (snd (step ident c (Frame now))) =
     playerMoved ident (fst c) ((snd c)\<lparr>lastUpdateRef := now\<rparr>)
       (real_of_int (now - lastUpdateRef (snd c)) / 1000)"
  by (cases c) (simp add: split_beta gameLoop_sent)

text \<open>
  C10. Take any history of a component, from its first state on, and let an animation
  frame follow. If the frame sends a position, then one of the four movement keys is
  held, the local player's key is in the \<open>players\<close> map of the last render,
  \<open>myPlayerRef\<close> is set, and some earlier render showed the local player online and
  its player effect added the local player's mesh to the scene. Hence, when no render
  of the history showed the local player online, the frame sends nothing.
\<close>

theorem C10_send_gating:
  "(snd (snd (step ident (run ident (initialClient t0) evs) (Frame now))) = Some np \<longrightarrow>
      (''w'' \<in> set (keysRef (snd (run ident (initialClient t0) evs)))
       \<or> ''a'' \<in> set (keysRef (snd (run ident (initialClient t0) evs)))
       \<or> ''s'' \<in> set (keysRef (snd (run ident (initialClient t0) evs)))
       \<or> ''d'' \<in> set (keysRef (snd (run ident (initialClient t0) evs))))
      \<and> Map_has (fst (run ident (initialClient t0) evs)) ident
      \<and> myPlayerRef (snd (run ident (initialClient t0) evs)) \<noteq> None
      \<and> (\<exists>pre ps post. evs = pre @ PlayersChanged ps # post
            \<and> (\<exists>p. (ident, p) \<in> set ps \<and> online p)
            \<and> SceneAdd (PlayerMesh ident)
                 \<in> set (fst (snd (step ident (run ident (initialClient t0) pre) (PlayersChanged ps))))))
   \<and> ((\<forall>ps. PlayersChanged ps \<in> set evs \<longrightarrow> \<not> (\<exists>p. (ident, p) \<in> set ps \<and> online p)) \<longrightarrow>
        snd (snd (step ident (run ident (initialClient t0) evs) (Frame now))) = None)"
proof -
  let ?c = "run ident (initialClient t0) evs"
  let ?sent = "snd (snd (step ident ?c (Frame now)))"
  have main: "(''w'' \<in> set (keysRef (snd ?c)) \<or> ''a'' \<in> set (keysRef (snd ?c))
       \<or> ''s'' \<in> set (keysRef (snd ?c)) \<or> ''d'' \<in> set (keysRef (snd ?c)))
      \<and> Map_has (fst ?c) ident
      \<and> myPlayerRef (snd ?c) \<noteq> None
      \<and> (\<exists>pre ps post. evs = pre @ PlayersChanged ps # post
            \<and> (\<exists>p. (ident, p) \<in> set ps \<and> online p)
            \<and> SceneAdd (PlayerMesh ident)
                 \<in> set (fst (snd (step ident (run ident (initialClient t0) pre) (PlayersChanged ps)))))"
    if "?sent = Some np" for np
  proof -
    from that have "playerMoved ident (fst ?c) ((snd ?c)\<lparr>lastUpdateRef := now\<rparr>)
       (real_of_int (now - lastUpdateRef (snd ?c)) / 1000) = Some np"
      by (simp only: step_Frame_sent)
    from playerMoved_Some [OF this]
    have a: "myPlayerRef (snd ?c) \<noteq> None"
      and b: "''w'' \<in> set (keysRef (snd ?c)) \<or> ''a'' \<in> set (keysRef (snd ?c))
       \<or> ''s'' \<in> set (keysRef (snd ?c)) \<or> ''d'' \<in> set (keysRef (snd ?c))"
      and c: "Map_has (fst ?c) ident"
      by simp_all
    from run_myPlayerRef [OF a] a b c show ?thesis by blast
  qed
  have never: "?sent = None"
    if n: "\<forall>ps. PlayersChanged ps \<in> set evs \<longrightarrow> \<not> (\<exists>p. (ident, p) \<in> set ps \<and> online p)"
  proof (cases ?sent)
    case None
    then show ?thesis .
  next
    case (Some q)
    from main [OF this] obtain pre ps post where
      "evs = pre @ PlayersChanged ps # post" "\<exists>p. (ident, p) \<in> set ps \<and> online p"
      by blast
    with n show ?thesis by auto
  qed
  from main never show ?thesis by blast
qed

lemma toLowerCase_D: "toLowerCase ''D'' = ''d''" and toLowerCase_d: "toLowerCase ''d'' = ''d''"
  by code_simp+

lemma mounted_step: "initScene (initialGame 0) = mountedGame"
  by (simp add: mountedGame_def)

lemma run_sessionOnline:
  "run ''a1'' (initialClient 0) sessionOnline =
     ([(''a1'', alice)],
      mountedGame\<lparr>playerMeshesRef := [(''a1'', aliceMesh)], myPlayerRef := Some alice,
                   keysRef := [''d'']\<rparr>)"
  by (simp add: run_def sessionOnline_def initialClient_def mounted_step alice_first_render
      handleKeyDown_def toLowerCase_D Set_add_def mountedGame_refs)

lemma aliceOffline_render:
  "updatePlayerMeshes ''a1'' [(''a1'', aliceOffline)] mountedGame = (mountedGame, [])"
  by (simp add: updatePlayerMeshes_def mountedGame_eq sortedPlayers_single aliceOffline_def alice_def
      Map_has_def)

lemma run_sessionOffline:
  "run ''a1'' (initialClient 0) sessionOffline =
     ([(''a1'', aliceOffline)], mountedGame\<lparr>keysRef := [''d'']\<rparr>)"
  by (simp add: run_def sessionOffline_def initialClient_def mounted_step aliceOffline_render
      handleKeyDown_def toLowerCase_d Set_add_def mountedGame_refs)

lemma sessionOnline_sent:
  "snd (snd (step ''a1'' (run ''a1'' (initialClient 0) sessionOnline) (Frame 100))) =
     Some \<lparr>pos_x = Finite 470, pos_y = Finite 450\<rparr>"
  unfolding run_sessionOnline
  by (simp add: gameLoop_def playerMoved_def movementDelta_def followPlayer_def mountedGame_eq
      alice_def MOVE_SPEED_def WORLD_SIZE_def Let_def clamp_Finite)

text \<open>
  C10 on the two sample histories: with \<open>alice\<close> online and \<open>D\<close> pressed, a frame a
  tenth of a second later sends (470, 450); with \<open>alice\<close> in the map but offline, the
  same frame sends nothing.
\<close>

theorem C10_send_gating_witness:
  "snd (snd (step ''a1'' (run ''a1'' (initialClient 0) sessionOnline) (Frame 100))) =
     Some \<lparr>pos_x = Finite 470, pos_y = Finite 450\<rparr>
   \<and> ''d'' \<in> set (keysRef (snd (run ''a1'' (initialClient 0) sessionOnline)))
   \<and> Map_has (fst (run ''a1'' (initialClient 0) sessionOnline)) ''a1''
   \<and> myPlayerRef (snd (run ''a1'' (initialClient 0) sessionOnline)) = Some alice
   \<and> Map_has (fst (run ''a1'' (initialClient 0) sessionOffline)) ''a1''
   \<and> Map_get (fst (run ''a1'' (initialClient 0) sessionOffline)) ''a1'' = Some aliceOffline
   \<and> \<not> online aliceOffline
   \<and> snd (snd (step ''a1'' (run ''a1'' (initialClient 0) sessionOffline) (Frame 100))) = None"
proof -
  have n: "\<forall>ps. PlayersChanged ps \<in> set sessionOffline \<longrightarrow> \<not> (\<exists>p. (''a1'', p) \<in> set ps \<and> online p)"
    by (simp add: sessionOffline_def aliceOffline_def)
  have on: "''d'' \<in> set (keysRef (snd (run ''a1'' (initialClient 0) sessionOnline)))"
    "myPlayerRef (snd (run ''a1'' (initialClient 0) sessionOnline)) = Some alice"
    by (simp_all add: run_sessionOnline)
  have off: "Map_has (fst (run ''a1'' (initialClient 0) sessionOffline)) ''a1''"
    "Map_get (fst (run ''a1'' (initialClient 0) sessionOffline)) ''a1'' = Some aliceOffline"
    "\<not> online aliceOffline"
    by (simp_all add: run_sessionOffline Map_has_def aliceOffline_def)
  from C10_send_gating [of "''a1''" 0 sessionOnline 100 "\<lparr>pos_x = Finite 470, pos_y = Finite 450\<rparr>"]
    sessionOnline_sent
  have a: "Map_has (fst (run ''a1'' (initialClient 0) sessionOnline)) ''a1''"
    by blast
  from C10_send_gating [of "''a1''" 0 sessionOffline 100] n
  have b: "snd (snd (step ''a1'' (run ''a1'' (initialClient 0) sessionOffline) (Frame 100))) = None"
    by blast
  from sessionOnline_sent on a off b show ?thesis by blast
qed

text \<open>
  C1 at the input where it fails. \<open>alice\<close> is inserted online and the player effect
  runs; then an update marks her offline and the effect runs again. The store then
  holds her key with no online player, yet \<open>playerMeshes\<close> still owns a mesh under
  her key: the first loop of the effect only asks whether the key is in \<open>players\<close>.
  (For food the owned keys do equal the ids of the array, lemma
  \<open>updateFoodMeshes_dom\<close>; the keys owned for players are given by lemma
  \<open>updatePlayerMeshes_dom\<close>.)
\<close>

theorem C1_offline_player_keeps_mesh:
  "usePlayer [Insert alice, Update alice aliceOffline] = [(''a1'', aliceOffline)]
   \<and> filter (\<lambda>e. online (snd e)) (usePlayer [Insert alice, Update alice aliceOffline]) = []
   \<and> map fst (playerMeshesRef
        (fst (updatePlayerMeshes ''a1'' (usePlayer [Insert alice, Update alice aliceOffline])
           (fst (updatePlayerMeshes ''a1'' (usePlayer [Insert alice]) mountedGame))))) = [''a1'']"
proof -
  have s1: "usePlayer [Insert alice] = [(''a1'', alice)]"
    by (simp add: usePlayer_def usePlayer_onInsert_def alice_def)
  have s2: "usePlayer [Insert alice, Update alice aliceOffline] = [(''a1'', aliceOffline)]"
    by (simp add: usePlayer_def usePlayer_onInsert_def usePlayer_onUpdate_def aliceOffline_def alice_def)
  have off: "\<not> online aliceOffline" by (simp add: aliceOffline_def)
  have r: "updatePlayerMeshes ''a1'' [(''a1'', aliceOffline)]
             (mountedGame\<lparr>playerMeshesRef := [(''a1'', aliceMesh)], myPlayerRef := Some alice\<rparr>) =
           (mountedGame\<lparr>playerMeshesRef := [(''a1'', aliceMesh)], myPlayerRef := Some alice\<rparr>, [])"
    using off by (simp add: updatePlayerMeshes_def mountedGame_eq sortedPlayers_single Map_has_def)
  show ?thesis
    unfolding s1 s2 alice_first_render using off by (simp add: r)
qed

text \<open>
  C2 at the input where it fails. \<open>alice\<close> is inserted and the player effect runs;
  then she is deleted and the effect runs again. Her mesh, which carries the outline
  ring, leaves the scene and the map, and the only call made is \<open>scene.remove\<close>: no
  geometry and no material is disposed. The food effect, on the same history for
  \<open>food7\<close>, disposes both before it drops the entry.
\<close>

theorem C2_player_removal_without_dispose:
  "usePlayer [Insert alice, Delete alice] = []
   \<and> updatePlayerMeshes ''a1'' (usePlayer [Insert alice, Delete alice])
        (fst (updatePlayerMeshes ''a1'' (usePlayer [Insert alice]) mountedGame))
       = (mountedGame\<lparr>myPlayerRef := Some alice\<rparr>, [SceneRemove (PlayerMesh ''a1'')])
   \<and> snd (updateFoodMeshes (useFood [Insert food7, Delete food7])
        (fst (updateFoodMeshes (useFood [Insert food7]) mountedGame)))
       = [SceneRemove (FoodMesh 7), GeometryDispose (FoodMesh 7), MaterialDispose (FoodMesh 7)]"
proof -
  have s1: "usePlayer [Insert alice] = [(''a1'', alice)]"
    by (simp add: usePlayer_def usePlayer_onInsert_def alice_def)
  have s2: "usePlayer [Insert alice, Delete alice] = []"
    by (simp add: usePlayer_def usePlayer_onInsert_def usePlayer_onDelete_def)
  have f1: "useFood [Insert food7] = [food7]"
    by (simp add: useFood_def useFood_onInsert_def)
  have f2: "useFood [Insert food7, Delete food7] = []"
    by (simp add: useFood_def useFood_onInsert_def useFood_onDelete_def)
  have p: "updatePlayerMeshes ''a1'' []
             (mountedGame\<lparr>playerMeshesRef := [(''a1'', aliceMesh)], myPlayerRef := Some alice\<rparr>) =
           (mountedGame\<lparr>myPlayerRef := Some alice\<rparr>, [SceneRemove (PlayerMesh ''a1'')])"
    by (simp add: updatePlayerMeshes_def mountedGame_eq sortedPlayers_empty Map_has_def)
  have g: "fst (updateFoodMeshes [food7] mountedGame) = mountedGame\<lparr>foodMeshesRef := [(7, food7Mesh)]\<rparr>"
    by (simp add: updateFoodMeshes_def updateCurrentFood_Cons updateFoodMesh_def mountedGame_eq
        food7Mesh_def food7_def FOOD_RADIUS_def Let_def)
  have f: "snd (updateFoodMeshes [] (mountedGame\<lparr>foodMeshesRef := [(7, food7Mesh)]\<rparr>)) =
           [SceneRemove (FoodMesh 7), GeometryDispose (FoodMesh 7), MaterialDispose (FoodMesh 7)]"
    by (simp add: updateFoodMeshes_def mountedGame_eq)
  show ?thesis
    unfolding s1 s2 f1 f2 alice_first_render g by (simp add: p f)
qed

end
